theory Spec2Isabelle
  imports Complex_Main "HOL-Library.Log_Nat"
begin

section \<open>Exceptions and outcomes of a wrapped operation\<close>

text \<open>
  The wrapped operations of \<^verbatim>\<open>src/error_handling.py\<close> are opaque Python callables: a
  call either returns a value or raises. An exception is modelled by the two things the
  code looks at: the classes it is an instance of (its method resolution order, by name,
  which decides \<^verbatim>\<open>isinstance\<close> and so every \<^verbatim>\<open>except\<close> clause) and the text
  \<^verbatim>\<open>str(e)\<close>.

  Clock readings and delays are real numbers, and a float operation on them yields the
  exact result. Where such an operation raises in Python (a power that overflows,
  \<^verbatim>\<open>time.sleep\<close> on a length it refuses), what the platform does is a parameter of the
  model. The costs of the usage ledger are floats of an arithmetic that is a parameter
  as a whole, with IEEE 754 binary64 as an instance.
\<close>

record pyexc =
  exc_mro :: "string list"
  exc_str :: string

datatype 'a outcome = Returns 'a | Raises pyexc

text \<open>Exceptions that the interpreter or the library raises, by class.\<close>

datatype py_error = TypeError | ValueError | OverflowError | ZeroDivisionError

definition isinstance :: "pyexc \<Rightarrow> string \<Rightarrow> bool" where
  "isinstance e cls = (cls \<in> set (exc_mro e))"

section \<open>The circuit breaker (create_circuit_breaker)\<close>

datatype cb_state = CLOSED | OPEN | HALF_OPEN

text \<open>The arguments of \<^verbatim>\<open>create_circuit_breaker\<close>, captured by the closure.\<close>

record cb_config =
  failure_threshold :: int
  timeout :: real
  expected_exception :: string

text \<open>The attributes of a \<^verbatim>\<open>CircuitBreaker\<close> instance; \<^verbatim>\<open>None\<close> is \<open>None\<close>.\<close>

record breaker =
  failure_count :: int
  last_failure_time :: "real option"
  state :: cb_state

definition init_breaker :: breaker where
  "init_breaker = \<lparr>failure_count = 0, last_failure_time = None, state = CLOSED\<rparr>"

text \<open>
  What one call of the wrapper meets in its environment: the reading of
  \<^verbatim>\<open>time.time()\<close> at the OPEN check (line 190), what \<^verbatim>\<open>func\<close> does if it is
  invoked, and the reading of \<^verbatim>\<open>time.time()\<close> in the failure handler (line 212).
  Each is consulted only where the code evaluates it.
\<close>

record 'a call_env =
  time_at_check :: real
  func_result :: "'a outcome"
  time_at_failure :: real

datatype 'a cb_result =
    Returned 'a
  | Propagated pyexc
  | CircuitOpenError
  | NoneTypeError

record 'a cb_call =
  cb_result :: "'a cb_result"
  cb_after :: breaker
  func_invoked :: bool

text \<open>
  Lines 189-197: the check made before the inner call. \<open>Inr\<close> carries the breaker with
  which the call goes on, \<open>Inl\<close> the exception raised instead. Subtracting \<^verbatim>\<open>None\<close>
  from a float raises TypeError.
\<close>

definition admission :: "cb_config \<Rightarrow> real \<Rightarrow> breaker \<Rightarrow> 'a cb_result + breaker" where
  "admission cfg now b =
     (if state b = OPEN then
        (case last_failure_time b of
           None \<Rightarrow> Inl NoneTypeError
         | Some t \<Rightarrow>
             if now - t > timeout cfg then Inr (b\<lparr>state := HALF_OPEN\<rparr>)
             else Inl CircuitOpenError)
      else Inr b)"

text \<open>Lines 199-224: the inner call and the bookkeeping after it.\<close>

definition guarded_call :: "cb_config \<Rightarrow> 'a call_env \<Rightarrow> breaker \<Rightarrow> 'a cb_call" where
  "guarded_call cfg env b =
     (case func_result env of
        Returns v \<Rightarrow>
          \<lparr>cb_result = Returned v,
           cb_after = (if state b = HALF_OPEN then b\<lparr>state := CLOSED\<rparr> else b)
                        \<lparr>failure_count := 0\<rparr>,
           func_invoked = True\<rparr>
      | Raises e \<Rightarrow>
          if isinstance e (expected_exception cfg) then
            (let b1 = b\<lparr>failure_count := failure_count b + 1,
                         last_failure_time := Some (time_at_failure env)\<rparr>;
                 b2 = (if failure_count b1 \<ge> failure_threshold cfg
                       then b1\<lparr>state := OPEN\<rparr> else b1)
             in \<lparr>cb_result = Propagated e, cb_after = b2, func_invoked = True\<rparr>)
          else \<lparr>cb_result = Propagated e, cb_after = b, func_invoked = True\<rparr>)"

definition cb_wrapper :: "cb_config \<Rightarrow> 'a call_env \<Rightarrow> breaker \<Rightarrow> 'a cb_call" where
  "cb_wrapper cfg env b =
     (case admission cfg (time_at_check env) b of
        Inl err \<Rightarrow> \<lparr>cb_result = err, cb_after = b, func_invoked = False\<rparr>
      | Inr b' \<Rightarrow> guarded_call cfg env b')"

text \<open>A sequence of calls on one breaker, each with its own environment.\<close>

fun run_calls :: "cb_config \<Rightarrow> breaker \<Rightarrow> 'a call_env list \<Rightarrow> breaker" where
  "run_calls cfg b [] = b"
| "run_calls cfg b (env # envs) = run_calls cfg (cb_after (cb_wrapper cfg env b)) envs"

text \<open>The call fails with an exception that the \<^verbatim>\<open>except expected_exception\<close> clause catches.\<close>

definition matching_failure :: "cb_config \<Rightarrow> 'a call_env \<Rightarrow> bool" where
  "matching_failure cfg env =
     (case func_result env of
        Returns v \<Rightarrow> False
      | Raises e \<Rightarrow> isinstance e (expected_exception cfg))"

text \<open>
  The decorator returned by \<^verbatim>\<open>create_circuit_breaker\<close> is \<^verbatim>\<open>breaker.call\<close> of one
  breaker (lines 228-229), so every function it decorates shares that breaker, and a
  wrapped operation may itself call such a function before it returns. An operation is
  therefore either plain, ending in an outcome without touching the breaker, or it first
  makes a nested call through the wrapper (with that call's clock readings and its own
  operation), handles whatever the call returns or raises, and then goes on.
\<close>

datatype 'a operation =
    Plain "'a outcome"
  | Nested real "'a operation" real "'a operation"

text \<open>
  Running an operation on the breaker as the admission left it: the outcome and the
  breaker as the operation leaves it. The bookkeeping of lines 202-224 then reads the
  breaker in that state.
\<close>

fun run_operation :: "cb_config \<Rightarrow> 'a operation \<Rightarrow> breaker \<Rightarrow> 'a outcome \<times> breaker" where
  "run_operation cfg (Plain result) b = (result, b)"
| "run_operation cfg (Nested tc inner tf rest) b =
     run_operation cfg rest
       (case (admission cfg tc b :: 'a cb_result + breaker) of
          Inl err \<Rightarrow> b
        | Inr b' \<Rightarrow>
            cb_after
              (guarded_call cfg
                 \<lparr>time_at_check = tc, func_result = fst (run_operation cfg inner b'),
                  time_at_failure = tf\<rparr>
                 (snd (run_operation cfg inner b'))))"

definition reentrant_wrapper ::
  "cb_config \<Rightarrow> real \<Rightarrow> 'a operation \<Rightarrow> real \<Rightarrow> breaker \<Rightarrow> 'a cb_call" where
  "reentrant_wrapper cfg tc operation tf b =
     (case admission cfg tc b of
        Inl err \<Rightarrow> \<lparr>cb_result = err, cb_after = b, func_invoked = False\<rparr>
      | Inr b' \<Rightarrow>
          guarded_call cfg
            \<lparr>time_at_check = tc, func_result = fst (run_operation cfg operation b'),
             time_at_failure = tf\<rparr>
            (snd (run_operation cfg operation b')))"

section \<open>The retry executor (retry_with_exponential_backoff)\<close>

record retry_config =
  max_retries :: int
  base_delay :: real
  max_delay :: real
  exponential_base :: real
  jitter :: bool

text \<open>
  What the platform does where the arithmetic of line 83 and the wait of line 93 can
  raise: whether the float power \<^verbatim>\<open>exponential_base ** attempt\<close> overflows
  (OverflowError), and the exception with which \<^verbatim>\<open>time.sleep\<close> refuses a length, if it
  does (ValueError for a negative one, OverflowError for one too long).
\<close>

record platform =
  pow_overflows :: "real \<Rightarrow> nat \<Rightarrow> bool"
  sleep_error :: "real \<Rightarrow> py_error option"

text \<open>
  \<^verbatim>\<open>str(e).lower()\<close> and the substring test \<^verbatim>\<open>x in error_msg\<close>. Exception texts are
  taken to be ASCII, where \<^verbatim>\<open>lower\<close> maps A-Z to a-z and leaves the rest alone.
\<close>

definition lower_char :: "char \<Rightarrow> char" where
  "lower_char c =
     (let n = (of_char c :: nat) in if 65 \<le> n \<and> n \<le> 90 then char_of (n + 32) else c)"

definition lower :: "string \<Rightarrow> string" where
  "lower s = map lower_char s"

fun starts_with :: "string \<Rightarrow> string \<Rightarrow> bool" where
  "starts_with s [] = True"
| "starts_with [] (p # ps) = False"
| "starts_with (c # cs) (p # ps) = (c = p \<and> starts_with cs ps)"

fun str_contains :: "string \<Rightarrow> string \<Rightarrow> bool" where
  "str_contains x [] = (x = [])"
| "str_contains x (c # cs) = (starts_with (c # cs) x \<or> str_contains x cs)"

text \<open>Line 77: the errors that are re-raised at once.\<close>

definition non_retryable :: "pyexc \<Rightarrow> bool" where
  "non_retryable e =
     (let error_msg = lower (exc_str e)
      in list_ex (\<lambda>x. str_contains x error_msg) [''invalid api key'', ''401'', ''403'', ''404''])"

text \<open>
  Line 83, where \<open>None\<close> is the OverflowError of the power, and lines 86-87 with \<open>r\<close> the
  value drawn from \<^verbatim>\<open>random.random()\<close>.
\<close>

definition backoff_delay :: "platform \<Rightarrow> retry_config \<Rightarrow> nat \<Rightarrow> real option" where
  "backoff_delay pf cfg attempt =
     (if pow_overflows pf (exponential_base cfg) attempt then None
      else Some (min (base_delay cfg * exponential_base cfg ^ attempt) (max_delay cfg)))"

definition sleep_delay :: "platform \<Rightarrow> retry_config \<Rightarrow> real \<Rightarrow> nat \<Rightarrow> real option" where
  "sleep_delay pf cfg r attempt =
     (case backoff_delay pf cfg attempt of
        None \<Rightarrow> None
      | Some delay \<Rightarrow> Some (if jitter cfg then delay * (0.5 + r) else delay))"

text \<open>
  How a call of the retrying wrapper ends: with the value of \<^verbatim>\<open>func\<close>, with an exception
  of \<^verbatim>\<open>func\<close> re-raised, or with an exception raised by the wrapper's own code: the
  TypeError of \<^verbatim>\<open>raise last_exception\<close> when that is still \<^verbatim>\<open>None\<close>, the OverflowError
  of the power, a ValueError or OverflowError of \<^verbatim>\<open>time.sleep\<close>. The run also records
  how often \<^verbatim>\<open>func\<close> was invoked and the waits performed.
\<close>

datatype 'a retry_result =
    Success 'a
  | Reraised pyexc
  | Raised py_error

record 'a retry_run =
  retry_result :: "'a retry_result"
  calls_made :: nat
  waits :: "real list"

text \<open>
  The loop \<^verbatim>\<open>for attempt in range(max_retries + 1)\<close> over the attempts still to make.
  \<open>func i\<close> is what the \<open>i\<close>-th invocation of the operation does and \<open>rnd i\<close> the
  \<open>i\<close>-th value of \<^verbatim>\<open>random.random()\<close>; \<open>calls\<close> counts the invocations so far and
  \<open>slept\<close> lists the waits so far. \<^verbatim>\<open>except Exception\<close> catches instances of
  Exception only. An exception raised inside the handler (lines 83-93) ends the call.
\<close>

fun attempts_loop ::
  "platform \<Rightarrow> retry_config \<Rightarrow> (nat \<Rightarrow> 'a outcome) \<Rightarrow> (nat \<Rightarrow> real) \<Rightarrow> nat list \<Rightarrow>
     pyexc option \<Rightarrow> nat \<Rightarrow> real list \<Rightarrow> 'a retry_run" where
  "attempts_loop pf cfg func rnd [] last_exception calls slept =
     \<lparr>retry_result = (case last_exception of None \<Rightarrow> Raised TypeError | Some e \<Rightarrow> Reraised e),
      calls_made = calls, waits = slept\<rparr>"
| "attempts_loop pf cfg func rnd (attempt # rest) last_exception calls slept =
     (case func calls of
        Returns v \<Rightarrow> \<lparr>retry_result = Success v, calls_made = calls + 1, waits = slept\<rparr>
      | Raises e \<Rightarrow>
          if \<not> isinstance e ''Exception'' then
            \<lparr>retry_result = Reraised e, calls_made = calls + 1, waits = slept\<rparr>
          else if non_retryable e then
            \<lparr>retry_result = Reraised e, calls_made = calls + 1, waits = slept\<rparr>
          else if int attempt < max_retries cfg then
            (case sleep_delay pf cfg (rnd (length slept)) attempt of
               None \<Rightarrow>
                 \<lparr>retry_result = Raised OverflowError, calls_made = calls + 1, waits = slept\<rparr>
             | Some delay \<Rightarrow>
                 (case sleep_error pf delay of
                    Some err \<Rightarrow>
                      \<lparr>retry_result = Raised err, calls_made = calls + 1, waits = slept\<rparr>
                  | None \<Rightarrow>
                      attempts_loop pf cfg func rnd rest (Some e) (calls + 1) (slept @ [delay])))
          else attempts_loop pf cfg func rnd rest (Some e) (calls + 1) slept)"

definition retry_wrapper ::
  "platform \<Rightarrow> retry_config \<Rightarrow> (nat \<Rightarrow> 'a outcome) \<Rightarrow> (nat \<Rightarrow> real) \<Rightarrow> 'a retry_run" where
  "retry_wrapper pf cfg func rnd =
     attempts_loop pf cfg func rnd [0..<nat (max_retries cfg + 1)] None 0 []"

text \<open>An error that the handler catches and retries.\<close>

definition retryable :: "pyexc \<Rightarrow> bool" where
  "retryable e = (isinstance e ''Exception'' \<and> \<not> non_retryable e)"

text \<open>
  Every delay before a retry can be computed and slept: for each attempt that is followed
  by another, the power does not overflow and \<^verbatim>\<open>time.sleep\<close> accepts the delay.
\<close>

definition delays_accepted :: "platform \<Rightarrow> retry_config \<Rightarrow> (nat \<Rightarrow> real) \<Rightarrow> bool" where
  "delays_accepted pf cfg rnd =
     list_all
       (\<lambda>i. case sleep_delay pf cfg (rnd i) i of
               None \<Rightarrow> False
             | Some d \<Rightarrow> sleep_error pf d = None)
       [0..<nat (max_retries cfg)]"

section \<open>The safe adapter (safe_generate)\<close>

datatype 'a sg_value = Response 'a | Fallback string | NoneValue

datatype 'a sg_result = ReturnsPair "'a sg_value" "pyexc option" | SgRaises pyexc

text \<open>
  \<open>generate_func\<close> is what the one call \<^verbatim>\<open>generate_func()\<close> does. The test
  \<^verbatim>\<open>if fallback_response:\<close> is Python truthiness: \<^verbatim>\<open>None\<close> and the empty string fail it.
  \<open>log_errors\<close> only decides whether a log line is written.
\<close>

definition safe_generate :: "'a outcome \<Rightarrow> string option \<Rightarrow> bool \<Rightarrow> 'a sg_result" where
  "safe_generate generate_func fallback_response log_errors =
     (case generate_func of
        Returns response \<Rightarrow> ReturnsPair (Response response) None
      | Raises e \<Rightarrow>
          if isinstance e ''Exception'' then
            (case fallback_response of
               Some s \<Rightarrow> if s \<noteq> [] then ReturnsPair (Fallback s) (Some e)
                         else ReturnsPair NoneValue (Some e)
             | None \<Rightarrow> ReturnsPair NoneValue (Some e))
          else SgRaises e)"

section \<open>The safety-block inspector (handle_safety_block)\<close>

text \<open>
  The response is probed with \<^verbatim>\<open>hasattr\<close>: an attribute that is absent is \<open>None\<close> here,
  one that is present carries its value. \<open>block_reason\<close> and \<open>safety_ratings\<close> are only
  formatted into the reason, so they carry the text that the f-string renders; a missing
  \<^verbatim>\<open>safety_ratings\<close> defaults to the empty list, rendered \<open>[]\<close>. On values of these
  types no probe raises, so the handler of lines 159-161 is not entered.
\<close>

record api_feedback =
  block_reason :: "string option"

record api_candidate =
  finish_reason :: "string option"
  safety_ratings :: "string option"

record api_response =
  prompt_feedback :: "api_feedback option"
  candidates :: "api_candidate list option"

definition check_finish_reason :: "api_response \<Rightarrow> bool \<times> string option" where
  "check_finish_reason response =
     (case candidates response of
        Some (candidate # others) \<Rightarrow>
          (case finish_reason candidate of
             Some fr \<Rightarrow>
               if fr \<in> set [''SAFETY'', ''BLOCKED''] then
                 (True, Some (''Content blocked. Safety ratings: '' @
                    (case safety_ratings candidate of Some rs \<Rightarrow> rs | None \<Rightarrow> ''[]'')))
               else (False, None)
           | None \<Rightarrow> (False, None))
      | Some [] \<Rightarrow> (False, None)
      | None \<Rightarrow> (False, None))"

definition handle_safety_block :: "api_response \<Rightarrow> bool \<times> string option" where
  "handle_safety_block response =
     (case prompt_feedback response of
        Some feedback \<Rightarrow>
          (case block_reason feedback of
             Some br \<Rightarrow> (True, Some (''Blocked: '' @ br))
           | None \<Rightarrow> check_finish_reason response)
      | None \<Rightarrow> check_finish_reason response)"

text \<open>
  The response carries no request-level block indicator: \<^verbatim>\<open>prompt_feedback\<close> is
  absent, or it has no \<^verbatim>\<open>block_reason\<close>.
\<close>

definition no_block_indicator :: "api_response \<Rightarrow> bool" where
  "no_block_indicator response =
     (case prompt_feedback response of
        None \<Rightarrow> True
      | Some feedback \<Rightarrow> block_reason feedback = None)"

section \<open>Float arithmetic\<close>

text \<open>
  The float operations that the usage ledger performs, over a type \<open>'f\<close> of float
  values: the value of a decimal literal (its digits and the number of places after the
  point), \<^verbatim>\<open>int / int\<close>, \<^verbatim>\<open>float * float\<close>, \<^verbatim>\<open>float + float\<close>, \<^verbatim>\<open>float / int\<close> and
  \<^verbatim>\<open>round(float, n)\<close>. The two divisions can raise.
\<close>

record 'f float_arith =
  float_of_decimal :: "int \<Rightarrow> nat \<Rightarrow> 'f"
  true_div :: "int \<Rightarrow> int \<Rightarrow> py_error + 'f"
  float_mul :: "'f \<Rightarrow> 'f \<Rightarrow> 'f"
  float_add :: "'f \<Rightarrow> 'f \<Rightarrow> 'f"
  float_div_int :: "'f \<Rightarrow> int \<Rightarrow> py_error + 'f"
  float_round :: "'f \<Rightarrow> nat \<Rightarrow> 'f"

subsection \<open>IEEE 754 binary64, as Python's float\<close>

text \<open>
  \<open>Finite m e\<close> is the number \<open>m * 2 ^ e\<close>, kept with \<open>m\<close> odd (or as \<open>Finite 0 0\<close>);
  \<open>NonFinite\<close> stands for the infinities and NaN, which no operation turns back into a
  number. Signed zeros are not told apart.
\<close>

datatype binary64 = Finite int int | NonFinite

text \<open>The integer nearest to \<open>n / d\<close> for \<open>d > 0\<close>, a tie going to the even one.\<close>

definition round_half_even_ratio :: "int \<Rightarrow> int \<Rightarrow> int" where
  "round_half_even_ratio n d =
     (let q = n div d; r = n mod d
      in if 2 * r < d then q else if d < 2 * r then q + 1
         else if even q then q else q + 1)"

text \<open>The exponent \<open>k\<close> with \<open>2 ^ k \<le> a / d < 2 ^ (k + 1)\<close>, for \<open>a > 0\<close> and \<open>d > 0\<close>.\<close>

definition floor_log2_ratio :: "int \<Rightarrow> int \<Rightarrow> int" where
  "floor_log2_ratio a d =
     (let k = bitlen a - bitlen d
      in if 0 \<le> k then (if d * 2 ^ nat k \<le> a then k else k - 1)
         else (if d \<le> a * 2 ^ nat (- k) then k else k - 1))"

function trim :: "int \<Rightarrow> int \<Rightarrow> binary64" where
  "trim m e = (if m = 0 then Finite 0 0
               else if even m then trim (m div 2) (e + 1)
               else Finite m e)"
  by pat_completeness auto
termination
  by (relation "measure (\<lambda>(m, e). nat \<bar>m\<bar>)") (auto elim!: evenE)

text \<open>
  The binary64 number nearest to \<open>n / d\<close> for \<open>d > 0\<close>, ties to even: 53 significant
  bits, the exponent not below that of the subnormal numbers, and \<open>NonFinite\<close> when the
  rounded value reaches \<open>2 ^ 1024\<close>.
\<close>

definition nearest :: "int \<Rightarrow> int \<Rightarrow> binary64" where
  "nearest n d =
     (if n = 0 then Finite 0 0
      else
        let a = \<bar>n\<bar>;
            e = max (floor_log2_ratio a d) (- 1022);
            s = e - 52;
            m = (if 0 \<le> s then round_half_even_ratio a (d * 2 ^ nat s)
                 else round_half_even_ratio (a * 2 ^ nat (- s)) d)
        in if 1023 < e \<or> (e = 1023 \<and> 2 ^ 53 \<le> m) then NonFinite
           else trim (sgn n * m) s)"

definition scaled :: "int \<Rightarrow> int \<Rightarrow> binary64" where
  "scaled m e = (if 0 \<le> e then nearest (m * 2 ^ nat e) 1 else nearest m (2 ^ nat (- e)))"

fun b64_mul :: "binary64 \<Rightarrow> binary64 \<Rightarrow> binary64" where
  "b64_mul (Finite m1 e1) (Finite m2 e2) = scaled (m1 * m2) (e1 + e2)"
| "b64_mul x y = NonFinite"

fun b64_add :: "binary64 \<Rightarrow> binary64 \<Rightarrow> binary64" where
  "b64_add (Finite m1 e1) (Finite m2 e2) =
     (let e = min e1 e2 in scaled (m1 * 2 ^ nat (e1 - e) + m2 * 2 ^ nat (e2 - e)) e)"
| "b64_add x y = NonFinite"

text \<open>
  \<^verbatim>\<open>round(x, n)\<close> rounds the exact value of \<open>x\<close> to \<open>n\<close> decimal places, ties to even,
  and returns the float nearest to that decimal.
\<close>

fun b64_round :: "binary64 \<Rightarrow> nat \<Rightarrow> binary64" where
  "b64_round (Finite m e) n =
     (if 0 \<le> e then nearest (round_half_even_ratio (m * 2 ^ nat e * 10 ^ n) 1) (10 ^ n)
      else nearest (round_half_even_ratio (m * 10 ^ n) (2 ^ nat (- e))) (10 ^ n))"
| "b64_round NonFinite n = NonFinite"

text \<open>
  \<^verbatim>\<open>a / b\<close> on integers is the float nearest to the quotient, and raises OverflowError
  when that is not finite.
\<close>

definition b64_true_div :: "int \<Rightarrow> int \<Rightarrow> py_error + binary64" where
  "b64_true_div a b =
     (if b = 0 then Inl ZeroDivisionError
      else (case nearest (a * sgn b) \<bar>b\<bar> of
              NonFinite \<Rightarrow> Inl OverflowError
            | Finite m e \<Rightarrow> Inr (Finite m e)))"

text \<open>
  \<^verbatim>\<open>x / n\<close> converts \<open>n\<close> to a float first (OverflowError when it is too large) and
  then divides.
\<close>

fun b64_div_int :: "binary64 \<Rightarrow> int \<Rightarrow> py_error + binary64" where
  "b64_div_int x n =
     (case nearest n 1 of
        NonFinite \<Rightarrow> Inl OverflowError
      | Finite m' e' \<Rightarrow>
          if m' = 0 then Inl ZeroDivisionError
          else (case x of
                  NonFinite \<Rightarrow> Inr NonFinite
                | Finite m e \<Rightarrow>
                    Inr (if e' \<le> e then nearest (m * sgn m' * 2 ^ nat (e - e')) \<bar>m'\<bar>
                         else nearest (m * sgn m') (\<bar>m'\<bar> * 2 ^ nat (e' - e)))))"

definition binary64_arith :: "binary64 float_arith" where
  "binary64_arith =
     \<lparr>float_of_decimal = (\<lambda>digits places. nearest digits (10 ^ places)),
      true_div = b64_true_div,
      float_mul = b64_mul,
      float_add = b64_add,
      float_div_int = b64_div_int,
      float_round = b64_round\<rparr>"

section \<open>The usage ledger (cost_tracker.py)\<close>

record token_usage =
  prompt_tokens :: int
  completion_tokens :: int
  total_tokens :: int
  model :: string
  timestamp :: real

text \<open>A rate is the decimal literal of the source: its digits and places.\<close>

record rates =
  input_rate :: "int \<times> nat"
  output_rate :: "int \<times> nat"

definition gemini_pro_rates :: rates where
  "gemini_pro_rates = \<lparr>input_rate = (5, 4), output_rate = (15, 4)\<rparr>"

text \<open>The \<^verbatim>\<open>pricing\<close> dictionary, in its insertion order.\<close>

definition pricing :: "(string \<times> rates) list" where
  "pricing =
     [(''gemini-2.5-flash'', \<lparr>input_rate = (1875, 8), output_rate = (75, 6)\<rparr>),
      (''gemini-2.5-pro'', \<lparr>input_rate = (125, 6), output_rate = (625, 6)\<rparr>),
      (''gemini-2.0-flash'', \<lparr>input_rate = (1875, 8), output_rate = (75, 6)\<rparr>),
      (''gemini-pro'', gemini_pro_rates)]"

text \<open>
  Lines 58-68: the first key that occurs in the lowered model name, with its entry; when
  there is none, the entry of \<^verbatim>\<open>"gemini-pro"\<close>.
\<close>

fun find_rates :: "(string \<times> rates) list \<Rightarrow> string \<Rightarrow> rates option" where
  "find_rates [] m = None"
| "find_rates ((key, r) # rest) m = (if str_contains key m then Some r else find_rates rest m)"

definition rates_for :: "string \<Rightarrow> rates" where
  "rates_for m =
     (case find_rates pricing (lower m) of
        Some r \<Rightarrow> r
      | None \<Rightarrow> gemini_pro_rates)"

text \<open>
  Lines 69-72. Each \<^verbatim>\<open>tokens / 1000\<close> is a true division of integers, which raises
  OverflowError when the quotient is beyond the floats.
\<close>

definition cost_estimate :: "'f float_arith \<Rightarrow> token_usage \<Rightarrow> py_error + 'f" where
  "cost_estimate fa u =
     (let rs = rates_for (model u)
      in case true_div fa (prompt_tokens u) 1000 of
           Inl err \<Rightarrow> Inl err
         | Inr a \<Rightarrow>
             (let input_cost =
                    float_mul fa a
                      (float_of_decimal fa (fst (input_rate rs)) (snd (input_rate rs)))
              in case true_div fa (completion_tokens u) 1000 of
                   Inl err \<Rightarrow> Inl err
                 | Inr b \<Rightarrow>
                     (let output_cost =
                            float_mul fa b
                              (float_of_decimal fa (fst (output_rate rs)) (snd (output_rate rs)))
                      in Inr (float_add fa input_cost output_cost))))"

record 'f cost_tracker =
  usage_history :: "token_usage list"
  total_prompt_tokens :: int
  total_completion_tokens :: int
  total_cost :: 'f

text \<open>The literal \<^verbatim>\<open>0.0\<close>.\<close>

definition float_zero :: "'f float_arith \<Rightarrow> 'f" where
  "float_zero fa = float_of_decimal fa 0 1"

definition init_tracker :: "'f float_arith \<Rightarrow> 'f cost_tracker" where
  "init_tracker fa = \<lparr>usage_history = [], total_prompt_tokens = 0,
                       total_completion_tokens = 0, total_cost = float_zero fa\<rparr>"

text \<open>
  \<^verbatim>\<open>add_usage\<close>, with \<open>now\<close> the reading of \<^verbatim>\<open>datetime.now()\<close> that stamps the
  record. Lines 108-110 store the record and add the counts; line 111 then computes the
  cost. The result is the record, or the exception of the cost computation, together with
  the tracker as the call leaves it: when the cost raises, the record and the counts are
  already in.
\<close>

definition add_usage ::
  "'f float_arith \<Rightarrow> int \<Rightarrow> int \<Rightarrow> string \<Rightarrow> real \<Rightarrow> 'f cost_tracker \<Rightarrow>
     (py_error + token_usage) \<times> 'f cost_tracker" where
  "add_usage fa p c m now t =
     (let usage = \<lparr>prompt_tokens = p, completion_tokens = c, total_tokens = p + c,
                    model = m, timestamp = now\<rparr>;
          t1 = t\<lparr>usage_history := usage_history t @ [usage],
                 total_prompt_tokens := total_prompt_tokens t + p,
                 total_completion_tokens := total_completion_tokens t + c\<rparr>
      in case cost_estimate fa usage of
           Inl err \<Rightarrow> (Inl err, t1)
         | Inr cost \<Rightarrow> (Inr usage, t1\<lparr>total_cost := float_add fa (total_cost t1) cost\<rparr>))"

text \<open>
  \<^verbatim>\<open>add_from_response\<close>. The response is probed for \<^verbatim>\<open>usage_metadata\<close>; a count
  that is missing (AttributeError) or \<^verbatim>\<open>None\<close> (TypeError in the sum, raised before
  anything is stored) is \<open>None\<close> here, and the handler turns it into the result
  \<^verbatim>\<open>None\<close> with the tracker untouched. The handler also swallows an exception of
  \<^verbatim>\<open>add_usage\<close>, with the tracker as that call left it.
\<close>

record usage_metadata =
  prompt_token_count :: "int option"
  candidates_token_count :: "int option"

definition add_from_response ::
  "'f float_arith \<Rightarrow> usage_metadata option \<Rightarrow> string \<Rightarrow> real \<Rightarrow> 'f cost_tracker \<Rightarrow>
     token_usage option \<times> 'f cost_tracker" where
  "add_from_response fa response m now t =
     (case response of
        Some metadata \<Rightarrow>
          (case prompt_token_count metadata of
             Some p \<Rightarrow>
               (case candidates_token_count metadata of
                  Some c \<Rightarrow>
                    (case fst (add_usage fa p c m now t) of
                       Inr usage \<Rightarrow> (Some usage, snd (add_usage fa p c m now t))
                     | Inl err \<Rightarrow> (None, snd (add_usage fa p c m now t)))
                | None \<Rightarrow> (None, t))
           | None \<Rightarrow> (None, t))
      | None \<Rightarrow> (None, t))"

definition reset :: "'f float_arith \<Rightarrow> 'f cost_tracker \<Rightarrow> 'f cost_tracker" where
  "reset fa t = \<lparr>usage_history = [], total_prompt_tokens = 0,
                  total_completion_tokens = 0, total_cost = float_zero fa\<rparr>"

text \<open>The operations that change a tracker, and a sequence of them run in order.\<close>

datatype ledger_op =
    AddUsage int int string real
  | AddFromResponse "usage_metadata option" string real
  | Reset

fun apply_op :: "'f float_arith \<Rightarrow> 'f cost_tracker \<Rightarrow> ledger_op \<Rightarrow> 'f cost_tracker" where
  "apply_op fa t (AddUsage p c m now) = snd (add_usage fa p c m now t)"
| "apply_op fa t (AddFromResponse response m now) = snd (add_from_response fa response m now t)"
| "apply_op fa t Reset = reset fa t"

fun run_ops :: "'f float_arith \<Rightarrow> 'f cost_tracker \<Rightarrow> ledger_op list \<Rightarrow> 'f cost_tracker" where
  "run_ops fa t [] = t"
| "run_ops fa t (op # rest) = run_ops fa (apply_op fa t op) rest"

definition tracker_total_tokens :: "'f cost_tracker \<Rightarrow> int" where
  "tracker_total_tokens t = total_prompt_tokens t + total_completion_tokens t"

definition request_count :: "'f cost_tracker \<Rightarrow> nat" where
  "request_count t = length (usage_history t)"

text \<open>
  \<^verbatim>\<open>get_summary\<close>. The averages are floats, or the integer \<^verbatim>\<open>0\<close> of an empty tracker;
  the division of the token total by the request count is a true division of integers
  and can raise, and so can the division of the cost by the count.
\<close>

datatype 'f pynum = PyInt int | PyFloat 'f

record 'f summary =
  total_requests :: nat
  summary_total_tokens :: int
  summary_prompt_tokens :: int
  summary_completion_tokens :: int
  estimated_cost_usd :: 'f
  average_tokens_per_request :: "'f pynum"
  average_cost_per_request :: "'f pynum"

definition get_summary :: "'f float_arith \<Rightarrow> 'f cost_tracker \<Rightarrow> py_error + 'f summary" where
  "get_summary fa t =
     (if request_count t > 0 then
        (case true_div fa (tracker_total_tokens t) (int (request_count t)) of
           Inl err \<Rightarrow> Inl err
         | Inr q \<Rightarrow>
             (case float_div_int fa (total_cost t) (int (request_count t)) of
                Inl err \<Rightarrow> Inl err
              | Inr a \<Rightarrow>
                  Inr \<lparr>total_requests = request_count t,
                       summary_total_tokens = tracker_total_tokens t,
                       summary_prompt_tokens = total_prompt_tokens t,
                       summary_completion_tokens = total_completion_tokens t,
                       estimated_cost_usd = float_round fa (total_cost t) 4,
                       average_tokens_per_request = PyFloat (float_round fa q 2),
                       average_cost_per_request = PyFloat (float_round fa a 4)\<rparr>))
      else
        Inr \<lparr>total_requests = request_count t,
             summary_total_tokens = tracker_total_tokens t,
             summary_prompt_tokens = total_prompt_tokens t,
             summary_completion_tokens = total_completion_tokens t,
             estimated_cost_usd = float_round fa (total_cost t) 4,
             average_tokens_per_request = PyInt 0,
             average_cost_per_request = PyInt 0\<rparr>)"

text \<open>
  The running aggregates agree with the stored records: the token totals are the sums of
  the stored counts, and whenever the cost of every stored record can be computed, the
  running cost is the float sum of those costs, taken in the order of the records from
  \<^verbatim>\<open>0.0\<close>.
\<close>

definition ledger_consistent :: "'f float_arith \<Rightarrow> 'f cost_tracker \<Rightarrow> bool" where
  "ledger_consistent fa t =
     (total_prompt_tokens t = sum_list (map prompt_tokens (usage_history t))
      \<and> total_completion_tokens t = sum_list (map completion_tokens (usage_history t))
      \<and> (\<forall>costs. map (cost_estimate fa) (usage_history t) = map Inr costs \<longrightarrow>
            total_cost t = foldl (float_add fa) (float_zero fa) costs))"

section \<open>Sample values\<close>

text \<open>Concrete exceptions, operations, policies and platforms on which the properties are run.\<close>

definition ex_value_error :: pyexc where
  "ex_value_error =
     \<lparr>exc_mro = [''ValueError'', ''Exception'', ''BaseException'', ''object''],
      exc_str = ''bad value''\<rparr>"

definition ex_key_error :: pyexc where
  "ex_key_error =
     \<lparr>exc_mro = [''KeyError'', ''LookupError'', ''Exception'', ''BaseException'', ''object''],
      exc_str = ''missing''\<rparr>"

definition ex_rate_limit :: pyexc where
  "ex_rate_limit =
     \<lparr>exc_mro = [''RuntimeError'', ''Exception'', ''BaseException'', ''object''],
      exc_str = ''429 Rate limit exceeded''\<rparr>"

definition ex_not_found :: pyexc where
  "ex_not_found =
     \<lparr>exc_mro = [''RuntimeError'', ''Exception'', ''BaseException'', ''object''],
      exc_str = ''404 Model Not Found''\<rparr>"

definition ex_keyboard_interrupt :: pyexc where
  "ex_keyboard_interrupt =
     \<lparr>exc_mro = [''KeyboardInterrupt'', ''BaseException'', ''object''], exc_str = []\<rparr>"

definition only_value_errors :: cb_config where
  "only_value_errors = \<lparr>failure_threshold = 1, timeout = 60, expected_exception = ''ValueError''\<rparr>"

definition failing_call :: "real \<Rightarrow> pyexc \<Rightarrow> real \<Rightarrow> string call_env" where
  "failing_call tc e tf = \<lparr>time_at_check = tc, func_result = Raises e, time_at_failure = tf\<rparr>"

definition two_failures_allowed :: cb_config where
  "two_failures_allowed =
     \<lparr>failure_threshold = 2, timeout = 60, expected_exception = ''Exception''\<rparr>"

text \<open>
  An operation that calls a function decorated with the same breaker twice, at times 1
  and 2, catches the ValueError of each call, and returns.
\<close>

definition calls_twice_then_returns :: "string operation" where
  "calls_twice_then_returns =
     Nested 1 (Plain (Raises ex_value_error)) 1
       (Nested 2 (Plain (Raises ex_value_error)) 2 (Plain (Returns ''ok'')))"

definition always_rate_limited :: "nat \<Rightarrow> string outcome" where
  "always_rate_limited i = Raises ex_rate_limit"

definition fails_twice_then_ok :: "nat \<Rightarrow> string outcome" where
  "fails_twice_then_ok i = (if i < 2 then Raises ex_rate_limit else Returns ''ok'')"

definition not_found_first :: "nat \<Rightarrow> string outcome" where
  "not_found_first i = (if i = 0 then Raises ex_not_found else Returns ''ok'')"

definition draws_half :: "nat \<Rightarrow> real" where
  "draws_half i = 1 / 2"

text \<open>
  A platform with binary64 floats and a signed 64-bit count of nanoseconds for a sleep
  length: the power overflows when it rounds to \<open>2 ^ 1024\<close>, and \<^verbatim>\<open>time.sleep\<close>
  refuses a length outside the range of that count with OverflowError and a negative one
  within it with ValueError.
\<close>

definition sample_platform :: platform where
  "sample_platform =
     \<lparr>pow_overflows = (\<lambda>x n. 2 ^ 1024 - 2 ^ 970 \<le> \<bar>x ^ n\<bar>),
      sleep_error = (\<lambda>d. if 2 ^ 63 \<le> d * 10 ^ 9 \<or> d * 10 ^ 9 < - (2 ^ 63)
                          then Some OverflowError
                          else if d < 0 then Some ValueError else None)\<rparr>"

definition default_policy :: retry_config where
  "default_policy = \<lparr>max_retries = 3, base_delay = 1, max_delay = 60,
                       exponential_base = 2, jitter = True\<rparr>"



definition squaring_policy :: retry_config where
  "squaring_policy = \<lparr>max_retries = 3, base_delay = 1, max_delay = 60,
                        exponential_base = 2 ^ 512, jitter = False\<rparr>"

definition safety_stopped :: api_response where
  "safety_stopped =
     \<lparr>prompt_feedback = None,
      candidates = Some [\<lparr>finish_reason = Some ''SAFETY'', safety_ratings = None\<rparr>]\<rparr>"

definition bare_response :: api_response where
  "bare_response = \<lparr>prompt_feedback = None, candidates = None\<rparr>"

definition one_flash_request :: "ledger_op list" where
  "one_flash_request = [AddUsage 1000 1000 ''gemini-2.5-flash'' 0]"

section \<open>Verified properties\<close>

subsection \<open>Circuit breaker\<close>

lemma run_calls_append:
  "run_calls cfg b (xs @ ys) = run_calls cfg (run_calls cfg b xs) ys"
  by (induction xs arbitrary: b) simp_all

lemma cb_closed_failure:
  assumes "state b = CLOSED" and "matching_failure cfg env"
  shows "cb_after (cb_wrapper cfg env b) =
           (if failure_count b + 1 \<ge> failure_threshold cfg
            then b\<lparr>failure_count := failure_count b + 1,
                   last_failure_time := Some (time_at_failure env), state := OPEN\<rparr>
            else b\<lparr>failure_count := failure_count b + 1,
                   last_failure_time := Some (time_at_failure env)\<rparr>)"
  using assms
  by (auto simp: cb_wrapper_def admission_def guarded_call_def matching_failure_def Let_def
           split: outcome.splits)

lemma closed_failures_below:
  assumes "state b = CLOSED"
    and "\<forall>env\<in>set envs. matching_failure cfg env"
    and "failure_count b + int (length envs) < failure_threshold cfg"
  shows "state (run_calls cfg b envs) = CLOSED \<and>
         failure_count (run_calls cfg b envs) = failure_count b + int (length envs)"
  using assms
proof (induction envs arbitrary: b)
  case Nil
  then show ?case by simp
next
  case (Cons env envs)
  let ?b1 = "cb_after (cb_wrapper cfg env b)"
  have m: "matching_failure cfg env" using Cons.prems(2) by simp
  have lt: "\<not> failure_count b + 1 \<ge> failure_threshold cfg" using Cons.prems(3) by simp
  have b1: "?b1 = b\<lparr>failure_count := failure_count b + 1,
                   last_failure_time := Some (time_at_failure env)\<rparr>"
    using cb_closed_failure [OF Cons.prems(1) m] lt by simp
  have s1: "state ?b1 = CLOSED" and c1: "failure_count ?b1 = failure_count b + 1"
    using b1 Cons.prems(1) by simp_all
  have "state (run_calls cfg ?b1 envs) = CLOSED \<and>
        failure_count (run_calls cfg ?b1 envs) = failure_count ?b1 + int (length envs)"
    using Cons.IH [of ?b1] s1 c1 Cons.prems(2,3) by simp
  then show ?case using c1 by simp
qed

lemma threshold_failures_open:
  assumes "1 \<le> failure_threshold cfg"
    and "int (length envs) = failure_threshold cfg"
    and "\<forall>env\<in>set envs. matching_failure cfg env"
  shows "state (run_calls cfg init_breaker envs) = OPEN \<and>
         last_failure_time (run_calls cfg init_breaker envs) = Some (time_at_failure (last envs))"
proof -
  from assms(1,2) have ne: "envs \<noteq> []" by auto
  define front where "front = butlast envs"
  have envs: "envs = front @ [last envs]" using ne by (simp add: front_def)
  have len: "int (length front) = failure_threshold cfg - 1"
    using assms(2) ne by (cases envs) (auto simp: front_def)
  have allf: "\<forall>env\<in>set front. matching_failure cfg env"
    using assms(3) by (auto simp: front_def dest: in_set_butlastD)
  have ml: "matching_failure cfg (last envs)" using assms(3) ne by simp
  let ?b = "run_calls cfg init_breaker front"
  have st: "state ?b = CLOSED \<and> failure_count ?b = failure_count init_breaker + int (length front)"
    by (rule closed_failures_below) (use allf len in \<open>simp_all add: init_breaker_def\<close>)
  then have cnt: "failure_count ?b + 1 = failure_threshold cfg"
    using len by (simp add: init_breaker_def)
  have "run_calls cfg init_breaker envs = cb_after (cb_wrapper cfg (last envs) ?b)"
    by (subst envs) (simp add: run_calls_append)
  also have "\<dots> = ?b\<lparr>failure_count := failure_count ?b + 1,
                   last_failure_time := Some (time_at_failure (last envs)), state := OPEN\<rparr>"
    using cb_closed_failure [of ?b cfg "last envs"] st ml cnt by simp
  finally show ?thesis by simp
qed

lemma open_rejects:
  assumes "state b = OPEN" and "last_failure_time b = Some t"
    and "time_at_check env - t \<le> timeout cfg"
  shows "cb_wrapper cfg env b = \<lparr>cb_result = CircuitOpenError, cb_after = b, func_invoked = False\<rparr>"
  using assms by (simp add: cb_wrapper_def admission_def)

text \<open>
  Claim C1, for a threshold of at least one. A breaker created with failure threshold
  \<open>n \<ge> 1\<close> and started in its initial CLOSED state is OPEN after exactly \<open>n\<close>
  consecutive calls whose operation raised an exception matching the expected class. A
  next call whose clock reading is less than \<open>timeout\<close> after the last failure raises
  the circuit-open error, leaves the breaker as it is and does not invoke the operation.
\<close>

theorem breaker_opens_at_threshold:
  assumes "1 \<le> failure_threshold cfg"
    and "int (length envs) = failure_threshold cfg"
    and "\<forall>env\<in>set envs. matching_failure cfg env"
  shows "state (run_calls cfg init_breaker envs) = OPEN \<and>
         (time_at_check nxt - time_at_failure (last envs) < timeout cfg \<longrightarrow>
            cb_wrapper cfg nxt (run_calls cfg init_breaker envs) =
              \<lparr>cb_result = CircuitOpenError,
               cb_after = run_calls cfg init_breaker envs,
               func_invoked = False\<rparr>)"
proof -
  have op: "state (run_calls cfg init_breaker envs) = OPEN"
    and lf: "last_failure_time (run_calls cfg init_breaker envs) = Some (time_at_failure (last envs))"
    using threshold_failures_open [OF assms] by simp_all
  show ?thesis
    using op open_rejects [OF op lf, of nxt cfg] by simp
qed

theorem breaker_opens_at_threshold_witness:
  "1 \<le> failure_threshold \<lparr>failure_threshold = 2, timeout = 60, expected_exception = ''Exception''\<rparr>
   \<and> state (run_calls \<lparr>failure_threshold = 2, timeout = 60, expected_exception = ''Exception''\<rparr>
         init_breaker
         [\<lparr>time_at_check = 9, func_result = (Raises ex_value_error :: string outcome), time_at_failure = 10\<rparr>,
          \<lparr>time_at_check = 10, func_result = Raises ex_key_error, time_at_failure = 11\<rparr>]) = OPEN
   \<and> cb_wrapper \<lparr>failure_threshold = 2, timeout = 60, expected_exception = ''Exception''\<rparr>
         \<lparr>time_at_check = 50, func_result = Returns ''ok'', time_at_failure = 51\<rparr>
         (run_calls \<lparr>failure_threshold = 2, timeout = 60, expected_exception = ''Exception''\<rparr>
         init_breaker
         [\<lparr>time_at_check = 9, func_result = (Raises ex_value_error :: string outcome), time_at_failure = 10\<rparr>,
          \<lparr>time_at_check = 10, func_result = Raises ex_key_error, time_at_failure = 11\<rparr>])
       = \<lparr>cb_result = CircuitOpenError,
          cb_after = \<lparr>failure_count = 2, last_failure_time = Some 11, state = OPEN\<rparr>,
          func_invoked = False\<rparr>"
  using breaker_opens_at_threshold
    [of "\<lparr>failure_threshold = 2, timeout = 60, expected_exception = ''Exception''\<rparr>"
        "[\<lparr>time_at_check = 9, func_result = (Raises ex_value_error :: string outcome), time_at_failure = 10\<rparr>,
          \<lparr>time_at_check = 10, func_result = Raises ex_key_error, time_at_failure = 11\<rparr>]"
        "\<lparr>time_at_check = 50, func_result = Returns ''ok'', time_at_failure = 51\<rparr>"]
  by (simp add: matching_failure_def isinstance_def ex_value_error_def ex_key_error_def
        cb_wrapper_def admission_def guarded_call_def init_breaker_def)

theorem threshold_zero_counterexample:
  "int (length ([] :: string call_env list)) =
     failure_threshold \<lparr>failure_threshold = 0, timeout = 60, expected_exception = ''Exception''\<rparr>
   \<and> state (run_calls \<lparr>failure_threshold = 0, timeout = 60, expected_exception = ''Exception''\<rparr>
         init_breaker ([] :: string call_env list)) = CLOSED
   \<and> func_invoked (cb_wrapper \<lparr>failure_threshold = 0, timeout = 60, expected_exception = ''Exception''\<rparr>
         \<lparr>time_at_check = 1, func_result = Returns ''ok'', time_at_failure = 2\<rparr>
         (run_calls \<lparr>failure_threshold = 0, timeout = 60, expected_exception = ''Exception''\<rparr>
         init_breaker ([] :: string call_env list)))"
  by (simp add: cb_wrapper_def admission_def guarded_call_def init_breaker_def)

lemma open_admits_after_timeout:
  assumes "state b = OPEN" and "last_failure_time b = Some t"
    and "time_at_check env - t > timeout cfg"
  shows "cb_wrapper cfg env b = guarded_call cfg env (b\<lparr>state := HALF_OPEN\<rparr>)"
  using assms by (simp add: cb_wrapper_def admission_def)




lemma cb_wrapper_keeps_count:
  assumes "state b = CLOSED \<or> failure_threshold cfg \<le> failure_count b"
  shows "state (cb_after (cb_wrapper cfg env b)) = CLOSED
         \<or> failure_threshold cfg \<le> failure_count (cb_after (cb_wrapper cfg env b))"
  using assms
  by (cases "state b")
     (auto simp: cb_wrapper_def admission_def guarded_call_def Let_def
           split: outcome.splits option.splits)

lemma run_calls_keeps_count:
  assumes "state b = CLOSED \<or> failure_threshold cfg \<le> failure_count b"
  shows "state (run_calls cfg b envs) = CLOSED
         \<or> failure_threshold cfg \<le> failure_count (run_calls cfg b envs)"
  using assms
proof (induction envs arbitrary: b)
  case Nil
  then show ?case by simp
next
  case (Cons env envs)
  show ?case
    using Cons.IH [OF cb_wrapper_keeps_count [OF Cons.prems]] by simp
qed

lemma half_open_failure_reopens:
  assumes "state b = HALF_OPEN" and "failure_threshold cfg \<le> failure_count b"
    and "matching_failure cfg env"
  shows "state (cb_after (cb_wrapper cfg env b)) = OPEN"
  using assms
  by (auto simp: cb_wrapper_def admission_def guarded_call_def matching_failure_def Let_def
           split: outcome.splits)

text \<open>
  Claim C10, for calls made one after the other. In every state that a breaker reaches
  from its initial state through calls of the wrapper none of which starts while another
  call on the same breaker is in progress (plain operations, one caller), HALF_OPEN
  implies that the failure count is at least the threshold: both when HALF_OPEN is the
  state left behind by a call and when a call has just moved the breaker from OPEN to
  HALF_OPEN, which keeps the failure count. In either case a matching failure of that
  call's operation puts the breaker back to OPEN.
\<close>

theorem half_open_count_at_threshold:
  "(state (run_calls cfg init_breaker envs) = HALF_OPEN \<longrightarrow>
      failure_threshold cfg \<le> failure_count (run_calls cfg init_breaker envs)
      \<and> (matching_failure cfg env \<longrightarrow>
           state (cb_after (cb_wrapper cfg env (run_calls cfg init_breaker envs))) = OPEN))
   \<and> ((admission cfg (time_at_check env) (run_calls cfg init_breaker envs)
          :: 'a cb_result + breaker) = Inr b'
        \<and> state b' = HALF_OPEN \<longrightarrow>
      failure_count b' = failure_count (run_calls cfg init_breaker envs)
      \<and> failure_threshold cfg \<le> failure_count b'
      \<and> (matching_failure cfg env \<longrightarrow>
           state (cb_after (cb_wrapper cfg (env :: 'a call_env)
                    (run_calls cfg init_breaker envs))) = OPEN))"
proof -
  let ?B = "run_calls cfg init_breaker envs"
  have inv: "state ?B = CLOSED \<or> failure_threshold cfg \<le> failure_count ?B"
    by (rule run_calls_keeps_count) (simp add: init_breaker_def)
  have first: "state ?B = HALF_OPEN \<longrightarrow>
      failure_threshold cfg \<le> failure_count ?B
      \<and> (matching_failure cfg env \<longrightarrow> state (cb_after (cb_wrapper cfg env ?B)) = OPEN)"
    using inv half_open_failure_reopens [of ?B cfg env] by auto
  have second: "(admission cfg (time_at_check env) ?B :: 'a cb_result + breaker) = Inr b'
        \<and> state b' = HALF_OPEN \<longrightarrow>
      failure_count b' = failure_count ?B
      \<and> failure_threshold cfg \<le> failure_count b'
      \<and> (matching_failure cfg env \<longrightarrow> state (cb_after (cb_wrapper cfg env ?B)) = OPEN)"
  proof (intro impI, elim conjE)
    assume adm: "(admission cfg (time_at_check env) ?B :: 'a cb_result + breaker) = Inr b'"
      and ho: "state b' = HALF_OPEN"
    show "failure_count b' = failure_count ?B
      \<and> failure_threshold cfg \<le> failure_count b'
      \<and> (matching_failure cfg env \<longrightarrow> state (cb_after (cb_wrapper cfg env ?B)) = OPEN)"
    proof (cases "state ?B = OPEN")
      case True
      with inv have ge: "failure_threshold cfg \<le> failure_count ?B" by simp
      from adm True have b': "b' = ?B\<lparr>state := HALF_OPEN\<rparr>"
        by (auto simp: admission_def split: option.splits if_splits)
      have w: "cb_wrapper cfg env ?B = guarded_call cfg env b'"
        using adm by (simp add: cb_wrapper_def)
      show ?thesis
        using ge b' w
        by (auto simp: guarded_call_def matching_failure_def Let_def split: outcome.splits)
    next
      case False
      with adm have b': "b' = ?B" by (simp add: admission_def)
      with ho first show ?thesis by simp
    qed
  qed
  from first second show ?thesis by blast
qed

theorem half_open_count_at_threshold_witness:
  "state (run_calls only_value_errors init_breaker
            [failing_call 0 ex_value_error 0, failing_call 100 ex_key_error 101]) = HALF_OPEN
   \<and> matching_failure only_value_errors (failing_call 200 ex_value_error 201)
   \<and> failure_threshold only_value_errors
        \<le> failure_count (run_calls only_value_errors init_breaker
            [failing_call 0 ex_value_error 0, failing_call 100 ex_key_error 101])
   \<and> state (cb_after (cb_wrapper only_value_errors (failing_call 200 ex_value_error 201)
        (run_calls only_value_errors init_breaker
            [failing_call 0 ex_value_error 0, failing_call 100 ex_key_error 101]))) = OPEN
   \<and> (admission only_value_errors (time_at_check (failing_call 200 ex_value_error 201))
         (run_calls only_value_errors init_breaker [failing_call 0 ex_value_error 0])
         :: string cb_result + breaker)
       = Inr \<lparr>failure_count = 1, last_failure_time = Some 0, state = HALF_OPEN\<rparr>
   \<and> state (cb_after (cb_wrapper only_value_errors (failing_call 200 ex_value_error 201)
        (run_calls only_value_errors init_breaker [failing_call 0 ex_value_error 0]))) = OPEN"
  using half_open_count_at_threshold
    [where cfg = only_value_errors
       and envs = "[failing_call 0 ex_value_error 0, failing_call 100 ex_key_error 101]"
       and env = "failing_call 200 ex_value_error 201"]
    half_open_count_at_threshold
    [where cfg = only_value_errors
       and envs = "[failing_call 0 ex_value_error 0]"
       and env = "failing_call 200 ex_value_error 201"
       and b' = "\<lparr>failure_count = 1, last_failure_time = Some 0, state = HALF_OPEN\<rparr>"]
  by (simp add: only_value_errors_def failing_call_def ex_value_error_def ex_key_error_def
        cb_wrapper_def admission_def guarded_call_def init_breaker_def
        matching_failure_def isinstance_def)

text \<open>
  With a plain operation the wrapper that allows nested calls is the wrapper above. With
  nested calls it is not bound by the property: an operation that drives the breaker to
  OPEN through two failing nested calls and then returns has its failure count reset to
  0 while the state stays OPEN; after the timeout the breaker is HALF_OPEN with count 0,
  and a matching failure leaves it HALF_OPEN with count 1, below the threshold 2.
\<close>

lemma reentrant_plain:
  "reentrant_wrapper cfg tc (Plain result) tf b =
     cb_wrapper cfg \<lparr>time_at_check = tc, func_result = result, time_at_failure = tf\<rparr> b"
  by (simp add: reentrant_wrapper_def cb_wrapper_def split: sum.splits)

theorem nested_calls_counterexample:
  "cb_after (reentrant_wrapper two_failures_allowed 0 calls_twice_then_returns 3 init_breaker)
     = \<lparr>failure_count = 0, last_failure_time = Some 2, state = OPEN\<rparr>
   \<and> (admission two_failures_allowed 100
         \<lparr>failure_count = 0, last_failure_time = Some 2, state = OPEN\<rparr>
         :: string cb_result + breaker)
       = Inr \<lparr>failure_count = 0, last_failure_time = Some 2, state = HALF_OPEN\<rparr>
   \<and> \<not> failure_threshold two_failures_allowed \<le> 0
   \<and> isinstance ex_value_error (expected_exception two_failures_allowed)
   \<and> cb_after
        (reentrant_wrapper two_failures_allowed 100
           (Plain (Raises ex_value_error) :: string operation) 101
           (cb_after
              (reentrant_wrapper two_failures_allowed 0 calls_twice_then_returns 3
                 init_breaker)))
       = \<lparr>failure_count = 1, last_failure_time = Some 101, state = HALF_OPEN\<rparr>"
  by (simp add: reentrant_wrapper_def admission_def guarded_call_def init_breaker_def
        two_failures_allowed_def calls_twice_then_returns_def isinstance_def
        ex_value_error_def)

subsection \<open>Retry executor\<close>

lemma delays_acceptedD:
  assumes "delays_accepted pf cfg rnd" and "int i < max_retries cfg"
  shows "\<exists>d. sleep_delay pf cfg (rnd i) i = Some d \<and> sleep_error pf d = None"
proof -
  have "i \<in> set [0..<nat (max_retries cfg)]" using assms(2) by simp
  with assms(1) have "case sleep_delay pf cfg (rnd i) i of
                        None \<Rightarrow> False
                      | Some d \<Rightarrow> sleep_error pf d = None"
    unfolding delays_accepted_def list_all_iff by blast
  then show ?thesis
    by (cases "sleep_delay pf cfg (rnd i) i") simp_all
qed

lemma loop_succeeds_at:
  assumes "delays_accepted pf cfg rnd"
    and "\<forall>i. a \<le> i \<and> i < k \<longrightarrow> (\<exists>e. func i = Raises e \<and> retryable e)"
    and "func k = Returns v"
    and "a \<le> k" and "k < b" and "int b \<le> max_retries cfg + 1"
    and "length slept = a"
  shows "\<exists>ws. length ws = k - a \<and>
           attempts_loop pf cfg func rnd [a..<b] lst a slept =
             \<lparr>retry_result = Success v, calls_made = k + 1, waits = slept @ ws\<rparr>"
  using assms(2,4,7)
proof (induction "k - a" arbitrary: a lst slept)
  case 0
  then have ak: "a = k" by simp
  have "[a..<b] = k # [Suc k..<b]" using ak assms(5) by (simp add: upt_conv_Cons)
  then show ?case using assms(3) ak by simp
next
  case (Suc n)
  then have lt: "a < k" by simp
  have l: "[a..<b] = a # [Suc a..<b]" using lt assms(5) by (simp add: upt_conv_Cons)
  obtain e where e: "func a = Raises e" "retryable e" using Suc.prems(1) lt by auto
  have att: "int a < max_retries cfg" using lt assms(5,6) by simp
  obtain d where d: "sleep_delay pf cfg (rnd a) a = Some d" "sleep_error pf d = None"
    using delays_acceptedD [OF assms(1) att] by auto
  have step: "attempts_loop pf cfg func rnd [a..<b] lst a slept =
              attempts_loop pf cfg func rnd [Suc a..<b] (Some e) (Suc a) (slept @ [d])"
    using e att d Suc.prems(3) by (simp add: l retryable_def)
  have "\<exists>ws. length ws = k - Suc a \<and>
           attempts_loop pf cfg func rnd [Suc a..<b] (Some e) (Suc a) (slept @ [d]) =
             \<lparr>retry_result = Success v, calls_made = k + 1, waits = (slept @ [d]) @ ws\<rparr>"
    by (rule Suc.hyps(1)) (use Suc.hyps(2) Suc.prems lt in auto)
  then obtain ws where ws: "length ws = k - Suc a"
    "attempts_loop pf cfg func rnd [Suc a..<b] (Some e) (Suc a) (slept @ [d]) =
       \<lparr>retry_result = Success v, calls_made = k + 1, waits = (slept @ [d]) @ ws\<rparr>"
    by blast
  have "length (d # ws) = k - a" using ws(1) lt by simp
  moreover have "attempts_loop pf cfg func rnd [a..<b] lst a slept =
       \<lparr>retry_result = Success v, calls_made = k + 1, waits = slept @ (d # ws)\<rparr>"
    using step ws(2) by simp
  ultimately show ?case by blast
qed

lemma loop_all_fail:
  assumes "delays_accepted pf cfg rnd"
    and "\<forall>i. a \<le> i \<and> i < b \<longrightarrow> (\<exists>e. func i = Raises e \<and> retryable e)"
    and "a < b" and "int b = max_retries cfg + 1"
    and "length slept = a"
  shows "\<exists>ws. length ws = b - 1 - a \<and>
           attempts_loop pf cfg func rnd [a..<b] lst a slept =
             \<lparr>retry_result =
                (case func (b - 1) of Raises e \<Rightarrow> Reraised e | Returns v \<Rightarrow> Success v),
              calls_made = b, waits = slept @ ws\<rparr>"
  using assms(2,3,5)
proof (induction "b - a" arbitrary: a lst slept)
  case 0
  then show ?case by simp
next
  case (Suc n)
  have l: "[a..<b] = a # [Suc a..<b]" using Suc.prems(2) by (simp add: upt_conv_Cons)
  obtain e where e: "func a = Raises e" "retryable e" using Suc.prems(1,2) by auto
  show ?case
  proof (cases "Suc a = b")
    case True
    then have natt: "\<not> int a < max_retries cfg" using assms(4) by auto
    have "[Suc a..<b] = []" using True by simp
    then have "attempts_loop pf cfg func rnd [a..<b] lst a slept =
             \<lparr>retry_result =
                (case func (b - 1) of Raises e \<Rightarrow> Reraised e | Returns v \<Rightarrow> Success v),
              calls_made = b, waits = slept @ []\<rparr>"
      using e natt True l by (auto simp: retryable_def)
    moreover have "length ([] :: real list) = b - 1 - a" using True by auto
    ultimately show ?thesis by blast
  next
    case False
    then have lt: "Suc a < b" using Suc.prems(2) by simp
    then have att: "int a < max_retries cfg" using assms(4) by auto
    obtain d where d: "sleep_delay pf cfg (rnd a) a = Some d" "sleep_error pf d = None"
      using delays_acceptedD [OF assms(1) att] by auto
    have step: "attempts_loop pf cfg func rnd [a..<b] lst a slept =
              attempts_loop pf cfg func rnd [Suc a..<b] (Some e) (Suc a) (slept @ [d])"
      using e att d Suc.prems(3) by (simp add: l retryable_def)
    have "\<exists>ws. length ws = b - 1 - Suc a \<and>
           attempts_loop pf cfg func rnd [Suc a..<b] (Some e) (Suc a) (slept @ [d]) =
             \<lparr>retry_result =
                (case func (b - 1) of Raises e \<Rightarrow> Reraised e | Returns v \<Rightarrow> Success v),
              calls_made = b, waits = (slept @ [d]) @ ws\<rparr>"
      by (rule Suc.hyps(1)) (use Suc.hyps(2) Suc.prems lt in auto)
    then obtain ws where ws: "length ws = b - 1 - Suc a"
      "attempts_loop pf cfg func rnd [Suc a..<b] (Some e) (Suc a) (slept @ [d]) =
             \<lparr>retry_result =
                (case func (b - 1) of Raises e \<Rightarrow> Reraised e | Returns v \<Rightarrow> Success v),
              calls_made = b, waits = (slept @ [d]) @ ws\<rparr>"
      by blast
    have "length (d # ws) = b - 1 - a" using ws(1) lt by simp
    moreover have "attempts_loop pf cfg func rnd [a..<b] lst a slept =
             \<lparr>retry_result =
                (case func (b - 1) of Raises e \<Rightarrow> Reraised e | Returns v \<Rightarrow> Success v),
              calls_made = b, waits = slept @ (d # ws)\<rparr>"
      using step ws(2) by simp
    ultimately show ?thesis by blast
  qed
qed

lemma retryable_rate_limit: "retryable ex_rate_limit"
  by (simp add: retryable_def isinstance_def non_retryable_def ex_rate_limit_def
        lower_def lower_char_def)

lemma non_retryable_not_found: "non_retryable ex_not_found"
  by (simp add: non_retryable_def ex_not_found_def lower_def lower_char_def)

lemma default_delays_accepted: "delays_accepted sample_platform default_policy draws_half"
proof -
  have u: "[0..<(3::nat)] = [0, 1, 2]" by (simp add: upt_conv_Cons)
  show ?thesis
    by (simp add: delays_accepted_def default_policy_def u sleep_delay_def backoff_delay_def
          sample_platform_def draws_half_def)
qed

text \<open>
  Claim C3, for a policy with \<open>max_retries \<ge> 0\<close> under which every delay before a retry
  is computed and slept without an exception (no overflow of the power, and a length that
  \<^verbatim>\<open>time.sleep\<close> accepts). If the operation fails with a retryable error on its first
  \<open>k\<close> attempts, \<open>k < max_retries + 1\<close>, and returns on attempt \<open>k\<close>, the wrapper returns
  that value after exactly \<open>k\<close> waits and \<open>k + 1\<close> invocations. If it fails with a
  retryable error on every attempt, the wrapper performs exactly \<open>max_retries\<close> waits and
  \<open>max_retries + 1\<close> invocations and re-raises the error of the last attempt.
\<close>

theorem retry_counts_waits:
  assumes "0 \<le> max_retries cfg" and "delays_accepted pf cfg rnd"
  shows "(int k < max_retries cfg + 1
          \<and> (\<forall>i<k. \<exists>e. func i = Raises e \<and> retryable e)
          \<and> func k = Returns v \<longrightarrow>
            retry_result (retry_wrapper pf cfg func rnd) = Success v
            \<and> length (waits (retry_wrapper pf cfg func rnd)) = k
            \<and> calls_made (retry_wrapper pf cfg func rnd) = k + 1)
       \<and> ((\<forall>i. int i \<le> max_retries cfg \<longrightarrow> (\<exists>e. func i = Raises e \<and> retryable e)) \<longrightarrow>
            length (waits (retry_wrapper pf cfg func rnd)) = nat (max_retries cfg)
            \<and> calls_made (retry_wrapper pf cfg func rnd) = nat (max_retries cfg) + 1
            \<and> (\<exists>e. func (nat (max_retries cfg)) = Raises e
                   \<and> retry_result (retry_wrapper pf cfg func rnd) = Reraised e))"
proof -
  let ?b = "nat (max_retries cfg + 1)"
  have b: "int ?b = max_retries cfg + 1" using assms(1) by simp
  have part1: "retry_result (retry_wrapper pf cfg func rnd) = Success v
            \<and> length (waits (retry_wrapper pf cfg func rnd)) = k
            \<and> calls_made (retry_wrapper pf cfg func rnd) = k + 1"
    if h: "int k < max_retries cfg + 1" "\<forall>i<k. \<exists>e. func i = Raises e \<and> retryable e"
      "func k = Returns v"
  proof -
    have "\<exists>ws. length ws = k - 0 \<and>
           attempts_loop pf cfg func rnd [0..<?b] None 0 [] =
             \<lparr>retry_result = Success v, calls_made = k + 1, waits = [] @ ws\<rparr>"
      by (rule loop_succeeds_at [OF assms(2)]) (use h b in auto)
    then show ?thesis by (auto simp: retry_wrapper_def)
  qed
  have part2: "length (waits (retry_wrapper pf cfg func rnd)) = nat (max_retries cfg)
            \<and> calls_made (retry_wrapper pf cfg func rnd) = nat (max_retries cfg) + 1
            \<and> (\<exists>e. func (nat (max_retries cfg)) = Raises e
                   \<and> retry_result (retry_wrapper pf cfg func rnd) = Reraised e)"
    if h: "\<forall>i. int i \<le> max_retries cfg \<longrightarrow> (\<exists>e. func i = Raises e \<and> retryable e)"
  proof -
    have "\<exists>ws. length ws = ?b - 1 - 0 \<and>
           attempts_loop pf cfg func rnd [0..<?b] None 0 [] =
             \<lparr>retry_result =
                (case func (?b - 1) of Raises e \<Rightarrow> Reraised e | Returns v \<Rightarrow> Success v),
              calls_made = ?b, waits = [] @ ws\<rparr>"
      by (rule loop_all_fail [OF assms(2)]) (use h b assms(1) in auto)
    then obtain ws where ws: "length ws = ?b - 1"
      "retry_wrapper pf cfg func rnd =
         \<lparr>retry_result =
            (case func (?b - 1) of Raises e \<Rightarrow> Reraised e | Returns v \<Rightarrow> Success v),
          calls_made = ?b, waits = ws\<rparr>"
      by (auto simp: retry_wrapper_def)
    have b1: "?b - 1 = nat (max_retries cfg)" using assms(1) by simp
    have b2: "?b = nat (max_retries cfg) + 1" using assms(1) by simp
    obtain e where e: "func (nat (max_retries cfg)) = Raises e"
      using h assms(1) by force
    have "func (?b - 1) = Raises e" using e b1 by simp
    then have r: "retry_result (retry_wrapper pf cfg func rnd) = Reraised e"
      using ws(2) by simp
    have w: "length (waits (retry_wrapper pf cfg func rnd)) = nat (max_retries cfg)"
      using ws by (simp add: b1)
    have c: "calls_made (retry_wrapper pf cfg func rnd) = nat (max_retries cfg) + 1"
      using ws(2) b2 by simp
    from r w c e show ?thesis by blast
  qed
  from part1 part2 show ?thesis by blast
qed

theorem retry_counts_waits_witness:
  "0 \<le> max_retries default_policy
   \<and> delays_accepted sample_platform default_policy draws_half
   \<and> int 2 < max_retries default_policy + 1
   \<and> fails_twice_then_ok 2 = Returns ''ok''
   \<and> retry_result (retry_wrapper sample_platform default_policy fails_twice_then_ok draws_half)
       = Success ''ok''
   \<and> length (waits (retry_wrapper sample_platform default_policy fails_twice_then_ok draws_half))
       = 2
   \<and> calls_made (retry_wrapper sample_platform default_policy fails_twice_then_ok draws_half)
       = 2 + 1
   \<and> length (waits (retry_wrapper sample_platform default_policy always_rate_limited draws_half))
       = nat 3
   \<and> calls_made (retry_wrapper sample_platform default_policy always_rate_limited draws_half)
       = nat 3 + 1
   \<and> retry_result (retry_wrapper sample_platform default_policy always_rate_limited draws_half)
       = Reraised ex_rate_limit"
proof -
  have cfg: "0 \<le> max_retries default_policy"
    by (simp add: default_policy_def)
  have acc: "delays_accepted sample_platform default_policy draws_half"
    by (rule default_delays_accepted)
  have f1: "\<forall>i<2. \<exists>e. fails_twice_then_ok i = Raises e \<and> retryable e"
    by (simp add: fails_twice_then_ok_def retryable_rate_limit)
  have f2: "\<forall>i. int i \<le> max_retries default_policy \<longrightarrow>
              (\<exists>e. always_rate_limited i = Raises e \<and> retryable e)"
    by (simp add: always_rate_limited_def retryable_rate_limit)
  have k: "int 2 < max_retries default_policy + 1" "fails_twice_then_ok 2 = Returns ''ok''"
    by (simp_all add: default_policy_def fails_twice_then_ok_def)
  have m: "max_retries default_policy = 3" by (simp add: default_policy_def)
  show ?thesis
    using retry_counts_waits [OF cfg acc, of 2 fails_twice_then_ok "''ok''"]
      retry_counts_waits [OF cfg acc, of 0 always_rate_limited "''ok''"]
      cfg acc f1 f2 k
    by (simp add: m always_rate_limited_def)
qed

theorem retry_degenerate_policy_counterexample:
  "retryable ex_rate_limit
   \<and> retry_wrapper sample_platform
        \<lparr>max_retries = - 1, base_delay = 1, max_delay = 60,
         exponential_base = 2, jitter = False\<rparr> always_rate_limited draws_half
       = \<lparr>retry_result = Raised TypeError, calls_made = 0, waits = []\<rparr>
   \<and> retry_wrapper sample_platform
        \<lparr>max_retries = 3, base_delay = - 1, max_delay = 60,
         exponential_base = 2, jitter = False\<rparr> always_rate_limited draws_half
       = \<lparr>retry_result = Raised ValueError, calls_made = 1, waits = []\<rparr>
   \<and> retry_wrapper sample_platform squaring_policy always_rate_limited draws_half
       = \<lparr>retry_result = Raised OverflowError, calls_made = 3, waits = [1, 60]\<rparr>
   \<and> retry_wrapper sample_platform
        \<lparr>max_retries = 3, base_delay = 10 ^ 10, max_delay = 10 ^ 10,
         exponential_base = 2, jitter = False\<rparr> always_rate_limited draws_half
       = \<lparr>retry_result = Raised OverflowError, calls_made = 1, waits = []\<rparr>"
proof -
  have r: "retryable ex_rate_limit" by (rule retryable_rate_limit)
  have up: "[0..<(4::nat)] = [0, 1, 2, 3]" by (simp add: upt_conv_Cons)
  have c1: "retry_wrapper sample_platform
        \<lparr>max_retries = - 1, base_delay = 1, max_delay = 60,
         exponential_base = 2, jitter = False\<rparr> always_rate_limited draws_half
       = \<lparr>retry_result = Raised TypeError, calls_made = 0, waits = []\<rparr>"
    by (simp add: retry_wrapper_def)
  have c2: "retry_wrapper sample_platform
        \<lparr>max_retries = 3, base_delay = - 1, max_delay = 60,
         exponential_base = 2, jitter = False\<rparr> always_rate_limited draws_half
       = \<lparr>retry_result = Raised ValueError, calls_made = 1, waits = []\<rparr>"
    using r
    by (simp add: retry_wrapper_def up always_rate_limited_def retryable_def
          sleep_delay_def backoff_delay_def sample_platform_def)
  have c3: "retry_wrapper sample_platform squaring_policy always_rate_limited draws_half
       = \<lparr>retry_result = Raised OverflowError, calls_made = 3, waits = [1, 60]\<rparr>"
    using r
    by (simp add: retry_wrapper_def up always_rate_limited_def retryable_def
          sleep_delay_def backoff_delay_def sample_platform_def squaring_policy_def)
  have c4: "retry_wrapper sample_platform
        \<lparr>max_retries = 3, base_delay = 10 ^ 10, max_delay = 10 ^ 10,
         exponential_base = 2, jitter = False\<rparr> always_rate_limited draws_half
       = \<lparr>retry_result = Raised OverflowError, calls_made = 1, waits = []\<rparr>"
    using r
    by (simp add: retry_wrapper_def up always_rate_limited_def retryable_def
          sleep_delay_def backoff_delay_def sample_platform_def)
  from r c1 c2 c3 c4 show ?thesis by blast
qed

text \<open>
  Claim C4. If the first attempt (there is one when \<open>max_retries \<ge> 0\<close>, that is, when
  \<^verbatim>\<open>range(max_retries + 1)\<close> is not empty) fails with an error that the test of line 77
  classifies as non-retryable, that error is re-raised at once: the operation was invoked
  exactly once and no wait was performed.
\<close>

theorem non_retryable_propagates_at_once:
  assumes "0 \<le> max_retries cfg" and "func 0 = Raises e" and "non_retryable e"
  shows "retry_wrapper pf cfg func rnd =
           \<lparr>retry_result = Reraised e, calls_made = 1, waits = []\<rparr>"
proof -
  have "[0..<nat (max_retries cfg + 1)] = 0 # [1..<nat (max_retries cfg + 1)]"
    using assms(1) by (simp add: upt_conv_Cons)
  then show ?thesis
    using assms(2,3) by (simp add: retry_wrapper_def)
qed

theorem non_retryable_propagates_at_once_witness:
  "0 \<le> max_retries default_policy
   \<and> not_found_first 0 = Raises ex_not_found
   \<and> non_retryable ex_not_found
   \<and> retry_wrapper sample_platform default_policy not_found_first draws_half
       = \<lparr>retry_result = Reraised ex_not_found, calls_made = 1, waits = []\<rparr>"
proof -
  have a: "0 \<le> max_retries default_policy" by (simp add: default_policy_def)
  have b: "not_found_first 0 = Raises ex_not_found" by (simp add: not_found_first_def)
  have c: "non_retryable ex_not_found" by (rule non_retryable_not_found)
  show ?thesis
    using non_retryable_propagates_at_once
      [where cfg = default_policy and func = not_found_first and e = ex_not_found
         and rnd = draws_half and pf = sample_platform] a b c
    by simp
qed





subsection \<open>Safety-block inspector\<close>

lemma no_indicator_falls_through:
  "no_block_indicator response \<Longrightarrow> handle_safety_block response = check_finish_reason response"
  by (auto simp: no_block_indicator_def handle_safety_block_def split: option.splits)

text \<open>
  Claim C8, with the reason that the code builds. For a response without a request-level
  block indicator whose first candidate has finish reason \<open>SAFETY\<close>, the inspector
  returns \<open>True\<close> and the reason \<open>Content blocked. Safety ratings: \<close> followed by the
  rendered safety ratings of that candidate (\<open>[]\<close> when it has none). For a response
  with neither a block indicator nor a candidates list it returns \<open>(False, None)\<close>.
\<close>

theorem safety_block_reason:
  "(no_block_indicator response \<and> candidates response = Some (candidate # others)
      \<and> finish_reason candidate = Some ''SAFETY'' \<longrightarrow>
      handle_safety_block response =
        (True, Some (''Content blocked. Safety ratings: '' @
           (case safety_ratings candidate of Some rs \<Rightarrow> rs | None \<Rightarrow> ''[]''))))
   \<and> (no_block_indicator response \<and> candidates response = None \<longrightarrow>
      handle_safety_block response = (False, None))"
  by (auto simp: no_indicator_falls_through check_finish_reason_def)

theorem safety_block_reason_witness:
  "no_block_indicator safety_stopped
   \<and> candidates safety_stopped = Some [\<lparr>finish_reason = Some ''SAFETY'', safety_ratings = None\<rparr>]
   \<and> handle_safety_block safety_stopped = (True, Some ''Content blocked. Safety ratings: []'')
   \<and> no_block_indicator bare_response \<and> candidates bare_response = None
   \<and> handle_safety_block bare_response = (False, None)"
  using safety_block_reason
    [where response = safety_stopped
       and candidate = "\<lparr>finish_reason = Some ''SAFETY'', safety_ratings = None\<rparr>"
       and others = "[]"]
    safety_block_reason [where response = bare_response]
  by (simp add: safety_stopped_def bare_response_def no_block_indicator_def)

theorem safety_reason_lacks_marker_counterexample:
  "no_block_indicator safety_stopped
   \<and> candidates safety_stopped
       = Some [\<lparr>finish_reason = Some ''SAFETY'', safety_ratings = None\<rparr>]
   \<and> handle_safety_block safety_stopped = (True, Some ''Content blocked. Safety ratings: []'')
   \<and> \<not> str_contains ''SAFETY'' ''Content blocked. Safety ratings: []''"
  by (simp add: safety_stopped_def no_block_indicator_def handle_safety_block_def
        check_finish_reason_def)

subsection \<open>Safe adapter\<close>

text \<open>
  Claim C9, for a fallback that passes the truthiness test. If the generation function
  returns, the adapter returns its result paired with no error. If it raises an instance
  of Exception and the fallback is a non-empty string, the adapter returns the fallback
  paired with the captured error, and nothing is raised to the caller.
\<close>

theorem safe_generate_pairs:
  "(generate_func = Returns r \<longrightarrow>
      safe_generate generate_func fallback_response log_errors = ReturnsPair (Response r) None)
   \<and> (generate_func = Raises e \<and> isinstance e ''Exception''
       \<and> fallback_response = Some s \<and> s \<noteq> [] \<longrightarrow>
      safe_generate generate_func fallback_response log_errors
        = ReturnsPair (Fallback s) (Some e))"
  by (simp add: safe_generate_def)

theorem safe_generate_pairs_witness:
  "safe_generate (Returns ''hello'') (Some ''sorry'') True = ReturnsPair (Response ''hello'') None
   \<and> isinstance ex_rate_limit ''Exception'' \<and> ''sorry'' \<noteq> []
   \<and> safe_generate (Raises ex_rate_limit :: string outcome) (Some ''sorry'') True
        = ReturnsPair (Fallback ''sorry'') (Some ex_rate_limit)"
  using safe_generate_pairs
    [where generate_func = "Returns ''hello''" and r = "''hello''"
       and fallback_response = "Some ''sorry''" and log_errors = True]
    safe_generate_pairs
    [where generate_func = "Raises ex_rate_limit :: string outcome" and e = ex_rate_limit
       and fallback_response = "Some ''sorry''" and s = "''sorry''" and log_errors = True]
  by (simp add: isinstance_def ex_rate_limit_def)

theorem empty_fallback_counterexample:
  "isinstance ex_rate_limit ''Exception''
   \<and> safe_generate (Raises ex_rate_limit :: string outcome) (Some []) True
        = ReturnsPair NoneValue (Some ex_rate_limit)
   \<and> safe_generate (Raises ex_rate_limit :: string outcome) (Some []) True
        \<noteq> ReturnsPair (Fallback []) (Some ex_rate_limit)
   \<and> safe_generate (Raises ex_keyboard_interrupt :: string outcome) (Some ''sorry'') True
        = SgRaises ex_keyboard_interrupt"
  by (simp add: safe_generate_def isinstance_def ex_rate_limit_def ex_keyboard_interrupt_def)

subsection \<open>Usage ledger\<close>

lemma cost_estimate_computed:
  assumes "true_div fa (prompt_tokens u) 1000 = Inr a"
    and "true_div fa (completion_tokens u) 1000 = Inr b"
  shows "\<exists>cost. cost_estimate fa u = Inr cost"
  using assms by (simp add: cost_estimate_def Let_def)

lemma cost_estimate_raises:
  assumes "true_div fa (prompt_tokens u) 1000 = Inl err
           \<or> (true_div fa (prompt_tokens u) 1000 = Inr a
               \<and> true_div fa (completion_tokens u) 1000 = Inl err)"
  shows "cost_estimate fa u = Inl err"
  using assms by (auto simp: cost_estimate_def Let_def)

lemma add_usage_stores:
  "usage_history (snd (add_usage fa p c m now t))
     = usage_history t @
         [\<lparr>prompt_tokens = p, completion_tokens = c, total_tokens = p + c,
           model = m, timestamp = now\<rparr>]
   \<and> total_prompt_tokens (snd (add_usage fa p c m now t)) = total_prompt_tokens t + p
   \<and> total_completion_tokens (snd (add_usage fa p c m now t)) = total_completion_tokens t + c"
  by (cases "cost_estimate fa
               \<lparr>prompt_tokens = p, completion_tokens = c, total_tokens = p + c,
                model = m, timestamp = now\<rparr>")
     (simp_all add: add_usage_def Let_def)

lemma add_usage_returns:
  assumes "cost_estimate fa
             \<lparr>prompt_tokens = p, completion_tokens = c, total_tokens = p + c,
              model = m, timestamp = now\<rparr> = Inr cost"
  shows "fst (add_usage fa p c m now t)
           = Inr \<lparr>prompt_tokens = p, completion_tokens = c, total_tokens = p + c,
                  model = m, timestamp = now\<rparr>
         \<and> total_cost (snd (add_usage fa p c m now t)) = float_add fa (total_cost t) cost"
  using assms by (simp add: add_usage_def Let_def)

lemma add_usage_raises:
  assumes "cost_estimate fa
             \<lparr>prompt_tokens = p, completion_tokens = c, total_tokens = p + c,
              model = m, timestamp = now\<rparr> = Inl err"
  shows "fst (add_usage fa p c m now t) = Inl err
         \<and> total_cost (snd (add_usage fa p c m now t)) = total_cost t"
  using assms by (simp add: add_usage_def Let_def)

text \<open>
  Claim C7, without clamping and with the failure of the cost. For all integer token
  counts, negative ones included, a model name and a time stamp, \<open>add_usage\<close> appends a
  record that holds the counts exactly as given and their sum as total, and adds the
  given counts to the running token totals. When both counts divided by 1000 are within
  the floats, the call does not fail: it returns that record and adds the record's cost
  to the running cost. When one of the divisions raises, the call raises that exception
  with the record stored, the counts added and the running cost unchanged.
\<close>

theorem add_usage_keeps_counts:
  "usage_history (snd (add_usage fa p c m now t))
     = usage_history t @
         [\<lparr>prompt_tokens = p, completion_tokens = c, total_tokens = p + c,
           model = m, timestamp = now\<rparr>]
   \<and> total_prompt_tokens (snd (add_usage fa p c m now t)) = total_prompt_tokens t + p
   \<and> total_completion_tokens (snd (add_usage fa p c m now t)) = total_completion_tokens t + c
   \<and> (true_div fa p 1000 = Inr a \<and> true_div fa c 1000 = Inr b \<longrightarrow>
        fst (add_usage fa p c m now t)
          = Inr \<lparr>prompt_tokens = p, completion_tokens = c, total_tokens = p + c,
                 model = m, timestamp = now\<rparr>
        \<and> (\<exists>cost. cost_estimate fa
                      \<lparr>prompt_tokens = p, completion_tokens = c, total_tokens = p + c,
                       model = m, timestamp = now\<rparr> = Inr cost
                   \<and> total_cost (snd (add_usage fa p c m now t))
                       = float_add fa (total_cost t) cost))
   \<and> (true_div fa p 1000 = Inl err
        \<or> (true_div fa p 1000 = Inr a \<and> true_div fa c 1000 = Inl err) \<longrightarrow>
        fst (add_usage fa p c m now t) = Inl err
        \<and> total_cost (snd (add_usage fa p c m now t)) = total_cost t)"
proof -
  let ?u = "\<lparr>prompt_tokens = p, completion_tokens = c, total_tokens = p + c,
             model = m, timestamp = now\<rparr>"
  have ok: "fst (add_usage fa p c m now t) = Inr ?u
        \<and> (\<exists>cost. cost_estimate fa ?u = Inr cost
                   \<and> total_cost (snd (add_usage fa p c m now t))
                       = float_add fa (total_cost t) cost)"
    if h: "true_div fa p 1000 = Inr a \<and> true_div fa c 1000 = Inr b"
  proof -
    obtain cost where "cost_estimate fa ?u = Inr cost"
      using cost_estimate_computed [of fa ?u a b] h by auto
    then show ?thesis using add_usage_returns [of fa p c m now cost t] by blast
  qed
  have bad: "fst (add_usage fa p c m now t) = Inl err
        \<and> total_cost (snd (add_usage fa p c m now t)) = total_cost t"
    if h: "true_div fa p 1000 = Inl err
        \<or> (true_div fa p 1000 = Inr a \<and> true_div fa c 1000 = Inl err)"
  proof -
    have "cost_estimate fa ?u = Inl err"
      using cost_estimate_raises [of fa ?u err a] h by simp
    then show ?thesis by (rule add_usage_raises)
  qed
  from add_usage_stores [of fa p c m now t] ok bad show ?thesis by blast
qed

lemma small_counts_divide:
  "true_div binary64_arith (- 5) 1000 = Inr (Finite (- 5764607523034235) (- 60))
   \<and> true_div binary64_arith 3 1000 = Inr (Finite 3458764513820541 (- 60))"
  by code_simp

lemma huge_count_overflows:
  "true_div binary64_arith (10 ^ 312) 1000 = Inl OverflowError"
  by code_simp

theorem add_usage_keeps_counts_witness:
  "true_div binary64_arith (- 5) 1000 = Inr (Finite (- 5764607523034235) (- 60))
   \<and> true_div binary64_arith 3 1000 = Inr (Finite 3458764513820541 (- 60))
   \<and> fst (add_usage binary64_arith (- 5) 3 ''gemini-pro'' 0 (init_tracker binary64_arith))
       = Inr \<lparr>prompt_tokens = - 5, completion_tokens = 3, total_tokens = - 5 + 3,
              model = ''gemini-pro'', timestamp = 0\<rparr>
   \<and> true_div binary64_arith (10 ^ 312) 1000 = Inl OverflowError
   \<and> fst (add_usage binary64_arith (10 ^ 312) 0 ''gemini-pro'' 0 (init_tracker binary64_arith))
       = Inl OverflowError
   \<and> usage_history
        (snd (add_usage binary64_arith (10 ^ 312) 0 ''gemini-pro'' 0
                (init_tracker binary64_arith)))
       = usage_history (init_tracker binary64_arith) @
           [\<lparr>prompt_tokens = 10 ^ 312, completion_tokens = 0, total_tokens = 10 ^ 312 + 0,
             model = ''gemini-pro'', timestamp = 0\<rparr>]"
  using add_usage_keeps_counts
    [where fa = binary64_arith and p = "- 5" and c = 3 and m = "''gemini-pro''" and now = 0
       and t = "init_tracker binary64_arith"
       and a = "Finite (- 5764607523034235) (- 60)" and b = "Finite 3458764513820541 (- 60)"]
    add_usage_keeps_counts
    [where fa = binary64_arith and p = "10 ^ 312" and c = 0 and m = "''gemini-pro''"
       and now = 0 and t = "init_tracker binary64_arith" and err = OverflowError]
    small_counts_divide huge_count_overflows
  by simp

theorem negative_count_kept_counterexample:
  "prompt_tokens
     (last (usage_history
        (snd (add_usage binary64_arith (- 5) 3 ''gemini-pro'' 0 (init_tracker binary64_arith)))))
     = - 5
   \<and> total_prompt_tokens
        (snd (add_usage binary64_arith (- 5) 3 ''gemini-pro'' 0 (init_tracker binary64_arith)))
       = - 5
   \<and> (- 5 :: int) \<noteq> max 0 (- 5)
   \<and> fst (add_usage binary64_arith (10 ^ 312) 0 ''gemini-pro'' 0 (init_tracker binary64_arith))
       = Inl OverflowError"
proof -
  have "cost_estimate binary64_arith
          \<lparr>prompt_tokens = 10 ^ 312, completion_tokens = 0, total_tokens = 10 ^ 312 + 0,
           model = ''gemini-pro'', timestamp = 0\<rparr> = Inl OverflowError"
    using huge_count_overflows by (intro cost_estimate_raises) simp
  then have "fst (add_usage binary64_arith (10 ^ 312) 0 ''gemini-pro'' 0
                    (init_tracker binary64_arith)) = Inl OverflowError"
    using add_usage_raises by blast
  then show ?thesis
    using add_usage_stores
      [of binary64_arith "- 5" 3 "''gemini-pro''" 0 "init_tracker binary64_arith"]
    by (simp add: init_tracker_def)
qed

lemma map_snoc_costs:
  assumes "map f (xs @ [x]) = map Inr costs"
  shows "\<exists>cs c. costs = cs @ [c] \<and> map f xs = map Inr cs \<and> f x = Inr c"
proof -
  have "length costs = Suc (length xs)"
    using arg_cong [OF assms, of length] by simp
  then have ne: "costs \<noteq> []" by auto
  then have sp: "costs = butlast costs @ [last costs]" by simp
  have "map f xs @ [f x] = map Inr (butlast costs) @ [Inr (last costs)]"
    using assms sp by (metis list.simps(8,9) map_append)
  then have "map f xs = map Inr (butlast costs) \<and> f x = Inr (last costs)"
    by simp
  with sp show ?thesis by blast
qed

lemma add_usage_consistent:
  assumes "ledger_consistent fa t"
  shows "ledger_consistent fa (snd (add_usage fa p c m now t))"
proof -
  let ?u = "\<lparr>prompt_tokens = p, completion_tokens = c, total_tokens = p + c,
             model = m, timestamp = now\<rparr>"
  let ?t' = "snd (add_usage fa p c m now t)"
  note st = add_usage_stores [of fa p c m now t]
  have a1: "total_prompt_tokens t = sum_list (map prompt_tokens (usage_history t))"
    and a2: "total_completion_tokens t = sum_list (map completion_tokens (usage_history t))"
    and a3: "\<forall>costs. map (cost_estimate fa) (usage_history t) = map Inr costs \<longrightarrow>
               total_cost t = foldl (float_add fa) (float_zero fa) costs"
    using assms unfolding ledger_consistent_def by blast+
  have t1: "total_prompt_tokens ?t' = sum_list (map prompt_tokens (usage_history ?t'))"
    using a1 st by simp
  have t2: "total_completion_tokens ?t' = sum_list (map completion_tokens (usage_history ?t'))"
    using a2 st by simp
  have cost: "\<forall>costs. map (cost_estimate fa) (usage_history ?t') = map Inr costs \<longrightarrow>
                total_cost ?t' = foldl (float_add fa) (float_zero fa) costs"
  proof (intro allI impI)
    fix costs
    assume h: "map (cost_estimate fa) (usage_history ?t') = map Inr costs"
    have "map (cost_estimate fa) (usage_history t @ [?u]) = map Inr costs"
      using h st by simp
    from map_snoc_costs [OF this]
    obtain cs c' where cs: "costs = cs @ [c']"
      "map (cost_estimate fa) (usage_history t) = map Inr cs" "cost_estimate fa ?u = Inr c'"
      by blast
    have "total_cost t = foldl (float_add fa) (float_zero fa) cs"
      using a3 cs(2) by blast
    moreover have "total_cost ?t' = float_add fa (total_cost t) c'"
      using add_usage_returns [OF cs(3)] by simp
    ultimately show "total_cost ?t' = foldl (float_add fa) (float_zero fa) costs"
      using cs(1) by simp
  qed
  show ?thesis
    unfolding ledger_consistent_def using t1 t2 cost by blast
qed

lemma add_from_response_tracker:
  "snd (add_from_response fa response m now t) = t
   \<or> (\<exists>p c. snd (add_from_response fa response m now t) = snd (add_usage fa p c m now t))"
proof (cases response)
  case None
  then show ?thesis by (simp add: add_from_response_def)
next
  case (Some metadata)
  show ?thesis
  proof (cases "prompt_token_count metadata")
    case None
    with Some show ?thesis by (simp add: add_from_response_def)
  next
    case p: (Some p)
    show ?thesis
    proof (cases "candidates_token_count metadata")
      case None
      with Some p show ?thesis by (simp add: add_from_response_def)
    next
      case c: (Some c)
      have "snd (add_from_response fa response m now t) = snd (add_usage fa p c m now t)"
        using Some p c
        by (cases "fst (add_usage fa p c m now t)") (simp_all add: add_from_response_def)
      then show ?thesis by blast
    qed
  qed
qed

lemma add_from_response_consistent:
  assumes "ledger_consistent fa t"
  shows "ledger_consistent fa (snd (add_from_response fa response m now t))"
  using add_from_response_tracker [of fa response m now t] assms add_usage_consistent [OF assms]
  by auto

lemma reset_consistent: "ledger_consistent fa (reset fa t)"
  by (simp add: reset_def ledger_consistent_def)

lemma apply_op_consistent:
  "ledger_consistent fa t \<Longrightarrow> ledger_consistent fa (apply_op fa t op)"
  by (cases op)
     (simp_all add: add_usage_consistent add_from_response_consistent reset_consistent)

lemma run_ops_consistent:
  "ledger_consistent fa t \<Longrightarrow> ledger_consistent fa (run_ops fa t ops)"
  by (induction ops arbitrary: t) (simp_all add: apply_op_consistent)

lemma get_summary_fields:
  assumes "get_summary fa t = Inr s"
  shows "summary_total_tokens s = tracker_total_tokens t
         \<and> estimated_cost_usd s = float_round fa (total_cost t) 4"
  using assms by (auto simp: get_summary_def split: if_splits sum.splits)

text \<open>
  Claim C6, with the rounding of the summary. After any sequence of \<open>add_usage\<close>,
  \<open>add_from_response\<close> and \<open>reset\<close> calls on a fresh tracker, in any float arithmetic:
  the running token total is the sum of the prompt tokens plus the sum of the completion
  tokens of the stored records; whenever the cost of every stored record can be computed,
  the running total cost is the float sum of those costs, taken in the order of the
  records from \<^verbatim>\<open>0.0\<close>; and a summary, when \<open>get_summary\<close> returns one, holds that
  token total and, as its cost, the running total cost rounded to 4 decimal places.
\<close>

theorem summary_equals_fold:
  "tracker_total_tokens (run_ops fa (init_tracker fa) ops)
     = sum_list (map prompt_tokens (usage_history (run_ops fa (init_tracker fa) ops)))
       + sum_list (map completion_tokens (usage_history (run_ops fa (init_tracker fa) ops)))
   \<and> (map (cost_estimate fa) (usage_history (run_ops fa (init_tracker fa) ops))
         = map Inr costs \<longrightarrow>
        total_cost (run_ops fa (init_tracker fa) ops)
          = foldl (float_add fa) (float_zero fa) costs)
   \<and> (get_summary fa (run_ops fa (init_tracker fa) ops) = Inr s \<longrightarrow>
        summary_total_tokens s
          = sum_list (map prompt_tokens (usage_history (run_ops fa (init_tracker fa) ops)))
            + sum_list
                (map completion_tokens (usage_history (run_ops fa (init_tracker fa) ops)))
        \<and> estimated_cost_usd s
            = float_round fa (total_cost (run_ops fa (init_tracker fa) ops)) 4)"
proof -
  let ?T = "run_ops fa (init_tracker fa) ops"
  have "ledger_consistent fa (init_tracker fa)"
    by (simp add: ledger_consistent_def init_tracker_def)
  then have "ledger_consistent fa ?T"
    by (rule run_ops_consistent)
  then have a1: "total_prompt_tokens ?T = sum_list (map prompt_tokens (usage_history ?T))"
    and a2: "total_completion_tokens ?T = sum_list (map completion_tokens (usage_history ?T))"
    and a3: "\<forall>costs. map (cost_estimate fa) (usage_history ?T) = map Inr costs \<longrightarrow>
               total_cost ?T = foldl (float_add fa) (float_zero fa) costs"
    unfolding ledger_consistent_def by blast+
  have tok: "tracker_total_tokens ?T
     = sum_list (map prompt_tokens (usage_history ?T))
       + sum_list (map completion_tokens (usage_history ?T))"
    using a1 a2 by (simp add: tracker_total_tokens_def)
  have cost: "map (cost_estimate fa) (usage_history ?T) = map Inr costs \<longrightarrow>
        total_cost ?T = foldl (float_add fa) (float_zero fa) costs"
    using a3 by blast
  have summ: "get_summary fa ?T = Inr s \<longrightarrow>
        summary_total_tokens s
          = sum_list (map prompt_tokens (usage_history ?T))
            + sum_list (map completion_tokens (usage_history ?T))
        \<and> estimated_cost_usd s = float_round fa (total_cost ?T) 4"
    using get_summary_fields [of fa ?T s] tok by auto
  from tok cost summ show ?thesis by blast
qed

lemma flash_request_run:
  "run_ops binary64_arith (init_tracker binary64_arith) one_flash_request
     = \<lparr>usage_history =
          [\<lparr>prompt_tokens = 1000, completion_tokens = 1000, total_tokens = 2000,
            model = ''gemini-2.5-flash'', timestamp = 0\<rparr>],
        total_prompt_tokens = 1000, total_completion_tokens = 1000,
        total_cost = Finite 6917529027641081 (- 66)\<rparr>"
  by code_simp

lemma flash_request_cost:
  "map (cost_estimate binary64_arith)
     (usage_history (run_ops binary64_arith (init_tracker binary64_arith) one_flash_request))
     = map Inr [Finite 6917529027641081 (- 66)]"
  by code_simp

lemma flash_request_summary:
  "get_summary binary64_arith
     (run_ops binary64_arith (init_tracker binary64_arith) one_flash_request)
     = Inr \<lparr>total_requests = 1, summary_total_tokens = 2000, summary_prompt_tokens = 1000,
            summary_completion_tokens = 1000,
            estimated_cost_usd = Finite 7378697629483821 (- 66),
            average_tokens_per_request = PyFloat (Finite 125 4),
            average_cost_per_request = PyFloat (Finite 7378697629483821 (- 66))\<rparr>"
  by code_simp

theorem summary_equals_fold_witness:
  "map (cost_estimate binary64_arith)
     (usage_history (run_ops binary64_arith (init_tracker binary64_arith) one_flash_request))
     = map Inr [Finite 6917529027641081 (- 66)]
   \<and> total_cost (run_ops binary64_arith (init_tracker binary64_arith) one_flash_request)
       = foldl (float_add binary64_arith) (float_zero binary64_arith)
           [Finite 6917529027641081 (- 66)]
   \<and> get_summary binary64_arith
        (run_ops binary64_arith (init_tracker binary64_arith) one_flash_request)
       = Inr \<lparr>total_requests = 1, summary_total_tokens = 2000, summary_prompt_tokens = 1000,
              summary_completion_tokens = 1000,
              estimated_cost_usd = Finite 7378697629483821 (- 66),
              average_tokens_per_request = PyFloat (Finite 125 4),
              average_cost_per_request = PyFloat (Finite 7378697629483821 (- 66))\<rparr>
   \<and> Finite 7378697629483821 (- 66)
       = float_round binary64_arith
           (total_cost (run_ops binary64_arith (init_tracker binary64_arith) one_flash_request))
           4"
  using summary_equals_fold
    [where fa = binary64_arith and ops = one_flash_request
       and costs = "[Finite 6917529027641081 (- 66)]"
       and s = "\<lparr>total_requests = 1, summary_total_tokens = 2000, summary_prompt_tokens = 1000,
              summary_completion_tokens = 1000,
              estimated_cost_usd = Finite 7378697629483821 (- 66),
              average_tokens_per_request = PyFloat (Finite 125 4),
              average_cost_per_request = PyFloat (Finite 7378697629483821 (- 66))\<rparr>"]
    flash_request_cost flash_request_summary
  by simp

theorem summary_cost_rounded_counterexample:
  "map (cost_estimate binary64_arith)
     (usage_history (run_ops binary64_arith (init_tracker binary64_arith) one_flash_request))
     = map Inr [Finite 6917529027641081 (- 66)]
   \<and> get_summary binary64_arith
        (run_ops binary64_arith (init_tracker binary64_arith) one_flash_request)
       = Inr \<lparr>total_requests = 1, summary_total_tokens = 2000, summary_prompt_tokens = 1000,
              summary_completion_tokens = 1000,
              estimated_cost_usd = Finite 7378697629483821 (- 66),
              average_tokens_per_request = PyFloat (Finite 125 4),
              average_cost_per_request = PyFloat (Finite 7378697629483821 (- 66))\<rparr>
   \<and> Finite 7378697629483821 (- 66) \<noteq> Finite 6917529027641081 (- 66)"
  using flash_request_cost flash_request_summary by simp

end
